theory Spec2Isabelle
  imports Main "HOL-Library.AList" "HOL-Library.Multiset"
begin

section \<open>Trace data model (types.ts)\<close>

text \<open>
  The SDK never looks inside the payloads it records (\<open>input\<close>, \<open>output\<close>,
  \<open>evaluations\<close>, \<open>filtersApplied\<close>, \<open>metadata\<close>, \<open>context\<close>, \<open>finalOutput\<close>: the
  TypeScript types \<open>unknown\<close>, \<open>Record<string, unknown>\<close> and \<open>CandidateEvaluation[]\<close>):
  it stores and copies them. They are values of a type parameter \<open>'v\<close>. An optional
  property (\<open>endTime?: number\<close>) is an \<open>option\<close>; \<open>None\<close> is \<open>undefined\<close>.
  Timestamps are the integers \<open>Date.now()\<close> returns.
\<close>

datatype StepStatus = Pending | Running | Completed | Failed

datatype StepType = Llm | Search | Filter | Rank | Transform | Custom

record StepMetrics =
  inputCount :: "int option"
  outputCount :: "int option"
  passedCount :: "int option"
  failedCount :: "int option"
  duration :: "int option"

record 'v XRayStep =
  step_id :: string
  step_name :: string
  step_type :: StepType
  step_status :: StepStatus
  step_startTime :: int
  step_endTime :: "int option"
  step_input :: "'v option"
  step_output :: "'v option"
  step_reasoning :: "string option"
  step_metrics :: "StepMetrics option"
  step_evaluations :: "'v option"
  step_filtersApplied :: "'v option"
  step_metadata :: "'v option"
  step_error :: "string option"

text \<open>
  JavaScript objects and arrays are held by reference. An execution object and the
  array of its steps live in a heap; \<open>exec_steps\<close> is the reference of the array.
\<close>

type_synonym ref = nat

record 'v XRayExecution =
  exec_id :: string
  exec_name :: string
  exec_description :: "string option"
  exec_startTime :: int
  exec_endTime :: "int option"
  exec_status :: StepStatus
  exec_steps :: ref
  exec_context :: "'v option"
  exec_finalOutput :: "'v option"
  exec_tags :: "string list option"

text \<open>
  A callback is a function object of the caller's. The SDK only stores it, compares it
  by identity (\<open>fn_ref\<close>) and calls it; \<open>throws\<close> says whether a call of it raises an
  exception. Every call is written to the log \<open>calls\<close> of the world, with its argument.
  What a callback does besides is not code of the SDK: the callbacks here leave the
  heap and the store as they are.
\<close>

datatype callback = Callback (fn_ref: nat) (throws: bool)

datatype 'v arg = StepArg "'v XRayStep" | ExecutionArg ref

text \<open>How a call ends: it returns a value, or an exception thrown by a callback leaves it.\<close>

datatype 'a completion = Returned 'a | Threw callback

record 'v XRayConfig =
  cfg_executionName :: "string option"
  cfg_description :: "string option"
  cfg_context :: "'v option"
  cfg_tags :: "string list option"
  cfg_autoSave :: "bool option"
  cfg_onStepStart :: "callback option"
  cfg_onStepComplete :: "callback option"
  cfg_onExecutionComplete :: "callback option"

section \<open>The world: heap, singleton store, clock\<close>

text \<open>
  \<open>objects\<close> and \<open>arrays\<close> are the heap (\<open>allocated\<close> is the next fresh reference);
  \<open>executions\<close> and \<open>subscribers\<close> are the two private fields of the singleton
  \<open>xrayStore\<close>, a \<open>Map\<close> and a \<open>Set\<close>, both kept in insertion order as JavaScript iterates
  them; \<open>clock\<close> holds the readings the coming calls of \<open>Date.now()\<close> return and
  \<open>random\<close> the strings the coming \<open>Math.random().toString(36).substr(2, 9)\<close> return.
\<close>

record 'v world =
  objects :: "ref \<Rightarrow> 'v XRayExecution"
  arrays :: "ref \<Rightarrow> 'v XRayStep list"
  allocated :: ref
  executions :: "(string \<times> ref) list"
  subscribers :: "callback list"
  clock :: "nat \<Rightarrow> int"
  random :: "nat \<Rightarrow> string"
  calls :: "(callback \<times> 'v arg) list"

definition Date_now :: "'v world \<Rightarrow> int \<times> 'v world" where
  "Date_now w = (clock w 0, w\<lparr>clock := (\<lambda>n. clock w (Suc n))\<rparr>)"

definition Math_random :: "'v world \<Rightarrow> string \<times> 'v world" where
  "Math_random w = (random w 0, w\<lparr>random := (\<lambda>n. random w (Suc n))\<rparr>)"

definition new_object :: "'v XRayExecution \<Rightarrow> 'v world \<Rightarrow> ref \<times> 'v world" where
  "new_object v w =
     (allocated w, w\<lparr>objects := (objects w)(allocated w := v), allocated := Suc (allocated w)\<rparr>)"

definition new_array :: "'v XRayStep list \<Rightarrow> 'v world \<Rightarrow> ref \<times> 'v world" where
  "new_array xs w =
     (allocated w, w\<lparr>arrays := (arrays w)(allocated w := xs), allocated := Suc (allocated w)\<rparr>)"

text \<open>\<open>array.push(x)\<close> and an assignment to properties of the object at \<open>r\<close>.\<close>

definition Array_push :: "ref \<Rightarrow> 'v XRayStep \<Rightarrow> 'v world \<Rightarrow> 'v world" where
  "Array_push a x w = w\<lparr>arrays := (arrays w)(a := arrays w a @ [x])\<rparr>"

definition assign :: "ref \<Rightarrow> ('v XRayExecution \<Rightarrow> 'v XRayExecution) \<Rightarrow> 'v world \<Rightarrow> 'v world" where
  "assign r f w = w\<lparr>objects := (objects w)(r := f (objects w r))\<rparr>"

text \<open>Calling a callback, and the optional call \<open>cb?.(x)\<close>.\<close>

definition call :: "callback \<Rightarrow> 'v arg \<Rightarrow> 'v world \<Rightarrow> unit completion \<times> 'v world" where
  "call cb a w =
     (if throws cb then Threw cb else Returned (), w\<lparr>calls := calls w @ [(cb, a)]\<rparr>)"

definition call_opt :: "callback option \<Rightarrow> 'v arg \<Rightarrow> 'v world \<Rightarrow> unit completion \<times> 'v world" where
  "call_opt cbo a w = (case cbo of None \<Rightarrow> (Returned (), w) | Some cb \<Rightarrow> call cb a w)"

section \<open>The store (InMemoryXRayStore)\<close>

text \<open>
  \<open>Set.prototype.add\<close>, \<open>delete\<close> and \<open>forEach\<close> on a set kept in insertion order.
  \<open>forEach\<close> calls the members one after the other; an exception ends it.
\<close>

definition Set_add :: "'a \<Rightarrow> 'a list \<Rightarrow> 'a list" where
  "Set_add x s = (if x \<in> set s then s else s @ [x])"

definition Set_delete :: "'a \<Rightarrow> 'a list \<Rightarrow> 'a list" where
  "Set_delete x s = removeAll x s"

fun forEach :: "callback list \<Rightarrow> 'v arg \<Rightarrow> 'v world \<Rightarrow> unit completion \<times> 'v world" where
  "forEach [] a w = (Returned (), w)"
| "forEach (cb # cbs) a w =
     (case call cb a w of
        (Returned u, w') \<Rightarrow> forEach cbs a w'
      | (Threw c, w') \<Rightarrow> (Threw c, w'))"

text \<open>
  \<open>save\<close>: \<open>this.executions.set(execution.id, execution)\<close> stores the reference it was
  given (\<open>AList.update\<close> is \<open>Map.prototype.set\<close>: an existing key keeps its place, a new
  one goes last), then every subscriber is called with that reference.
\<close>

definition save :: "ref \<Rightarrow> 'v world \<Rightarrow> unit completion \<times> 'v world" where
  "save execution w =
     (let w1 = w\<lparr>executions := AList.update (exec_id (objects w execution)) execution (executions w)\<rparr>
      in forEach (subscribers w1) (ExecutionArg execution) w1)"

definition get :: "string \<Rightarrow> 'v world \<Rightarrow> ref option" where
  "get i w = map_of (executions w) i"

text \<open>
  \<open>subscribe\<close> returns the closure \<open>() => this.subscribers.delete(callback)\<close>, here
  \<open>unsubscribe callback\<close>, which returns what \<open>Set.prototype.delete\<close> returns.
\<close>

definition unsubscribe :: "callback \<Rightarrow> 'v world \<Rightarrow> bool \<times> 'v world" where
  "unsubscribe cb w = (cb \<in> set (subscribers w), w\<lparr>subscribers := Set_delete cb (subscribers w)\<rparr>)"

definition subscribe :: "callback \<Rightarrow> 'v world \<Rightarrow> ('v world \<Rightarrow> bool \<times> 'v world) \<times> 'v world" where
  "subscribe cb w = (unsubscribe cb, w\<lparr>subscribers := Set_add cb (subscribers w)\<rparr>)"

subsection \<open>findAll\<close>

datatype OrderBy = ByStartTime | ByEndTime | ByName

datatype OrderDirection = Asc | Desc

record QueryOptions =
  limit :: "int option"
  offset :: "int option"
  status :: "StepStatus option"
  tags :: "string list option"
  fromTime :: "int option"
  toTime :: "int option"
  orderBy :: "OrderBy option"
  orderDirection :: "OrderDirection option"

text \<open>
  The comparator handed to \<open>results.sort\<close>. \<open>String.prototype.localeCompare\<close> is not
  code of the SDK: it is the parameter \<open>localeCompare\<close>. \<open>a.endTime || 0\<close> reads a
  missing end time as 0.
\<close>

definition compareFn ::
  "(string \<Rightarrow> string \<Rightarrow> int) \<Rightarrow> OrderBy \<Rightarrow> OrderDirection \<Rightarrow>
   'v XRayExecution \<Rightarrow> 'v XRayExecution \<Rightarrow> int" where
  "compareFn localeCompare ob direction a b =
     (case ob of
        ByName \<Rightarrow>
          (if direction = Asc then localeCompare (exec_name a) (exec_name b)
           else localeCompare (exec_name b) (exec_name a))
      | ByStartTime \<Rightarrow>
          (if direction = Asc then exec_startTime a - exec_startTime b
           else exec_startTime b - exec_startTime a)
      | ByEndTime \<Rightarrow>
          (let aVal = (case exec_endTime a of None \<Rightarrow> 0 | Some t \<Rightarrow> t);
               bVal = (case exec_endTime b of None \<Rightarrow> 0 | Some t \<Rightarrow> t)
           in if direction = Asc then aVal - bVal else bVal - aVal))"

text \<open>
  \<open>Array.prototype.sort\<close> is a stable sort: an element goes after another when the
  comparator is positive on them, and elements the comparator does not separate keep
  their order. Insertion from the right does that. (Where a comparator is not a
  consistent ordering, JavaScript leaves the order to the engine; the properties below
  use of the sort only that it permutes its input and is a function of it.)
\<close>

fun insert_by :: "('a \<Rightarrow> 'a \<Rightarrow> int) \<Rightarrow> 'a \<Rightarrow> 'a list \<Rightarrow> 'a list" where
  "insert_by cmp x [] = [x]"
| "insert_by cmp x (y # ys) = (if cmp x y \<le> 0 then x # y # ys else y # insert_by cmp x ys)"

definition Array_sort :: "('a \<Rightarrow> 'a \<Rightarrow> int) \<Rightarrow> 'a list \<Rightarrow> 'a list" where
  "Array_sort cmp xs = foldr (insert_by cmp) xs []"

text \<open>
  \<open>Array.prototype.slice(start, end)\<close> on integers: a negative index counts from the
  end, both are clamped to the array, and an empty range gives the empty array.
\<close>

definition Array_slice :: "int \<Rightarrow> int \<Rightarrow> 'a list \<Rightarrow> 'a list" where
  "Array_slice start fin xs =
     (let len = int (length xs);
          k = (if start < 0 then max (len + start) 0 else min start len);
          final = (if fin < 0 then max (len + fin) 0 else min fin len)
      in take (nat (final - k)) (drop (nat k) xs))"

text \<open>The filter stage of \<open>findAll\<close>: the four \<open>if\<close> statements, in the source's order.\<close>

definition filtered :: "QueryOptions \<Rightarrow> 'v world \<Rightarrow> ref list" where
  "filtered options w =
     (let results = map snd (executions w);
          results = (case status options of
                       None \<Rightarrow> results
                     | Some s \<Rightarrow> filter (\<lambda>e. exec_status (objects w e) = s) results);
          results = (case tags options of
                       None \<Rightarrow> results
                     | Some ts \<Rightarrow>
                         if length ts > 0
                         then filter (\<lambda>e. list_ex (\<lambda>tag. case exec_tags (objects w e) of
                                                          None \<Rightarrow> False
                                                        | Some etags \<Rightarrow> tag \<in> set etags) ts) results
                         else results);
          results = (case fromTime options of
                       None \<Rightarrow> results
                     | Some t \<Rightarrow> filter (\<lambda>e. exec_startTime (objects w e) \<ge> t) results);
          results = (case toTime options of
                       None \<Rightarrow> results
                     | Some t \<Rightarrow> filter (\<lambda>e. exec_startTime (objects w e) \<le> t) results)
      in results)"

text \<open>The sort stage: \<open>orderBy\<close> defaults to the start time, the direction to descending.\<close>

definition sorted_results :: "(string \<Rightarrow> string \<Rightarrow> int) \<Rightarrow> QueryOptions \<Rightarrow> 'v world \<Rightarrow> ref list" where
  "sorted_results localeCompare options w =
     (let ob = (case orderBy options of None \<Rightarrow> ByStartTime | Some x \<Rightarrow> x);
          direction = (case orderDirection options of None \<Rightarrow> Desc | Some d \<Rightarrow> d)
      in Array_sort (\<lambda>a b. compareFn localeCompare ob direction (objects w a) (objects w b))
           (filtered options w))"

text \<open>
  \<open>findAll\<close>: filter, sort, then the page. \<open>options.offset || 0\<close> and
  \<open>options.limit || results.length\<close> read a missing value and 0 alike.
\<close>

definition findAll :: "(string \<Rightarrow> string \<Rightarrow> int) \<Rightarrow> QueryOptions \<Rightarrow> 'v world \<Rightarrow> ref list" where
  "findAll localeCompare options w =
     (let results = sorted_results localeCompare options w;
          off = (case offset options of None \<Rightarrow> 0 | Some k \<Rightarrow> if k = 0 then 0 else k);
          lim = (case limit options of
                   None \<Rightarrow> int (length results)
                 | Some l \<Rightarrow> if l = 0 then int (length results) else l)
      in Array_slice off (off + lim) results)"

section \<open>The SDK (XRayInstance)\<close>

text \<open>
  \<open>generateId\<close> is \<open>`${Date.now()}-${Math.random().toString(36).substr(2, 9)}`\<close>: it
  reads the clock once. \<open>toString\<close> writes an integer in decimal.
\<close>

fun digits :: "nat \<Rightarrow> string" where
  "digits n =
     (if n < 10 then [''0123456789'' ! n]
      else digits (n div 10) @ [''0123456789'' ! (n mod 10)])"

declare digits.simps [simp del]

definition toString :: "int \<Rightarrow> string" where
  "toString i = (if i < 0 then CHR ''-'' # digits (nat (- i)) else digits (nat i))"

definition generateId :: "'v world \<Rightarrow> string \<times> 'v world" where
  "generateId w =
     (let (t, w1) = Date_now w;
          (r, w2) = Math_random w1
      in (toString t @ ''-'' @ r, w2))"

record 'v XRayInstance =
  execution :: ref
  config :: "'v XRayConfig"
  autoSave :: bool

text \<open>
  The closing lines of the constructor, of \<open>complete\<close>, of \<open>fail\<close> and of \<open>finalize\<close>:
  \<open>if (this.autoSave) { xrayStore.save(this.execution); } return result;\<close>
\<close>

definition autosave_return :: "'v XRayInstance \<Rightarrow> 'a \<Rightarrow> 'v world \<Rightarrow> 'a completion \<times> 'v world" where
  "autosave_return this result w =
     (if autoSave this
      then (case save (execution this) w of
              (Threw c, w') \<Rightarrow> (Threw c, w')
            | (Returned u, w') \<Rightarrow> (Returned result, w'))
      else (Returned result, w))"

text \<open>
  The constructor. \<open>config.autoSave !== false\<close> is true for a missing value;
  \<open>config.executionName || 'Unnamed Execution'\<close> replaces a missing and an empty name.
\<close>

definition new_XRayInstance :: "'v XRayConfig \<Rightarrow> 'v world \<Rightarrow> 'v XRayInstance completion \<times> 'v world" where
  "new_XRayInstance cfg w =
     (let (i, w1) = generateId w;
          (t, w2) = Date_now w1;
          (a, w3) = new_array [] w2;
          (e, w4) = new_object
             \<lparr>exec_id = i,
              exec_name = (case cfg_executionName cfg of
                             None \<Rightarrow> ''Unnamed Execution''
                           | Some n \<Rightarrow> if n = [] then ''Unnamed Execution'' else n),
              exec_description = cfg_description cfg,
              exec_startTime = t,
              exec_endTime = None,
              exec_status = Running,
              exec_steps = a,
              exec_context = cfg_context cfg,
              exec_finalOutput = None,
              exec_tags = cfg_tags cfg\<rparr> w3;
          this = \<lparr>execution = e, config = cfg, autoSave = (cfg_autoSave cfg \<noteq> Some False)\<rparr>
      in autosave_return this this w4)"

definition createXRay :: "'v XRayConfig \<Rightarrow> 'v world \<Rightarrow> 'v XRayInstance completion \<times> 'v world" where
  "createXRay cfg w = new_XRayInstance cfg w"

text \<open>
  The step builder is a closure over \<open>this\<close>, \<open>stepData\<close> and \<open>startTime\<close>. A setter
  assigns one property of \<open>stepData\<close> and returns the builder.
\<close>

record 'v StepBuilder =
  xray :: "'v XRayInstance"
  stepData :: "'v XRayStep"
  startTime :: int

definition step ::
  "'v XRayInstance \<Rightarrow> string \<Rightarrow> StepType option \<Rightarrow> 'v world \<Rightarrow> 'v StepBuilder completion \<times> 'v world" where
  "step this name ty w =
     (let (stepId, w1) = generateId w;
          (t, w2) = Date_now w1;
          sd = \<lparr>step_id = stepId,
                step_name = name,
                step_type = (case ty of None \<Rightarrow> Custom | Some x \<Rightarrow> x),
                step_status = Running,
                step_startTime = t,
                step_endTime = None,
                step_input = None,
                step_output = None,
                step_reasoning = None,
                step_metrics = None,
                step_evaluations = None,
                step_filtersApplied = None,
                step_metadata = None,
                step_error = None\<rparr>
      in case call_opt (cfg_onStepStart (config this)) (StepArg sd) w2 of
           (Threw c, w3) \<Rightarrow> (Threw c, w3)
         | (Returned u, w3) \<Rightarrow> (Returned \<lparr>xray = this, stepData = sd, startTime = t\<rparr>, w3))"

definition withInput :: "'v \<Rightarrow> 'v StepBuilder \<Rightarrow> 'v StepBuilder" where
  "withInput v builder = builder\<lparr>stepData := (stepData builder)\<lparr>step_input := Some v\<rparr>\<rparr>"

definition withFilters :: "'v \<Rightarrow> 'v StepBuilder \<Rightarrow> 'v StepBuilder" where
  "withFilters v builder = builder\<lparr>stepData := (stepData builder)\<lparr>step_filtersApplied := Some v\<rparr>\<rparr>"

definition withEvaluations :: "'v \<Rightarrow> 'v StepBuilder \<Rightarrow> 'v StepBuilder" where
  "withEvaluations v builder = builder\<lparr>stepData := (stepData builder)\<lparr>step_evaluations := Some v\<rparr>\<rparr>"

definition withReasoning :: "string \<Rightarrow> 'v StepBuilder \<Rightarrow> 'v StepBuilder" where
  "withReasoning v builder = builder\<lparr>stepData := (stepData builder)\<lparr>step_reasoning := Some v\<rparr>\<rparr>"

definition withMetadata :: "'v \<Rightarrow> 'v StepBuilder \<Rightarrow> 'v StepBuilder" where
  "withMetadata v builder = builder\<lparr>stepData := (stepData builder)\<lparr>step_metadata := Some v\<rparr>\<rparr>"

text \<open>A chain of setter calls, in the order they are made.\<close>

datatype 'v setter =
  WithInput 'v | WithFilters 'v | WithEvaluations 'v | WithReasoning string | WithMetadata 'v

fun apply_setter :: "'v setter \<Rightarrow> 'v StepBuilder \<Rightarrow> 'v StepBuilder" where
  "apply_setter (WithInput v) b = withInput v b"
| "apply_setter (WithFilters v) b = withFilters v b"
| "apply_setter (WithEvaluations v) b = withEvaluations v b"
| "apply_setter (WithReasoning v) b = withReasoning v b"
| "apply_setter (WithMetadata v) b = withMetadata v b"

definition setters :: "'v setter list \<Rightarrow> 'v StepBuilder \<Rightarrow> 'v StepBuilder" where
  "setters ss b = fold apply_setter ss b"

text \<open>
  \<open>complete\<close>. The object literal is evaluated property by property: \<open>endTime: Date.now()\<close>
  is one reading of the clock and \<open>duration: Date.now() - startTime\<close> the next one.
  \<open>{...metrics, duration: d}\<close> copies the metrics given (none when \<open>undefined\<close>) and then
  sets \<open>duration\<close>.
\<close>

definition no_metrics :: StepMetrics where
  "no_metrics =
     \<lparr>inputCount = None, outputCount = None, passedCount = None, failedCount = None,
      duration = None\<rparr>"

definition complete ::
  "'v StepBuilder \<Rightarrow> 'v \<Rightarrow> StepMetrics option \<Rightarrow> 'v world \<Rightarrow> 'v XRayStep completion \<times> 'v world" where
  "complete builder out metrics w =
     (let this = xray builder;
          (t1, w1) = Date_now w;
          (t2, w2) = Date_now w1;
          completedStep = (stepData builder)
             \<lparr>step_output := Some out,
              step_status := Completed,
              step_endTime := Some t1,
              step_metrics := Some ((case metrics of None \<Rightarrow> no_metrics | Some m \<Rightarrow> m)
                                      \<lparr>duration := Some (t2 - startTime builder)\<rparr>)\<rparr>;
          w3 = Array_push (exec_steps (objects w2 (execution this))) completedStep w2
      in case call_opt (cfg_onStepComplete (config this)) (StepArg completedStep) w3 of
           (Threw c, w4) \<Rightarrow> (Threw c, w4)
         | (Returned u, w4) \<Rightarrow> autosave_return this completedStep w4)"

definition fail ::
  "'v StepBuilder \<Rightarrow> string \<Rightarrow> 'v world \<Rightarrow> 'v XRayStep completion \<times> 'v world" where
  "fail builder err w =
     (let this = xray builder;
          (t1, w1) = Date_now w;
          (t2, w2) = Date_now w1;
          failedStep = (stepData builder)
             \<lparr>step_status := Failed,
              step_endTime := Some t1,
              step_error := Some err,
              step_metrics := Some (no_metrics\<lparr>duration := Some (t2 - startTime builder)\<rparr>)\<rparr>;
          w3 = Array_push (exec_steps (objects w2 (execution this))) failedStep w2
      in case call_opt (cfg_onStepComplete (config this)) (StepArg failedStep) w3 of
           (Threw c, w4) \<Rightarrow> (Threw c, w4)
         | (Returned u, w4) \<Rightarrow> autosave_return this failedStep w4)"

text \<open>\<open>finalize\<close> changes the execution object in place and returns its reference.\<close>

definition finalize :: "'v XRayInstance \<Rightarrow> 'v option \<Rightarrow> 'v world \<Rightarrow> ref completion \<times> 'v world" where
  "finalize this finalOutput w =
     (let e = execution this;
          hasFailedStep = list_ex (\<lambda>s. step_status s = Failed) (arrays w (exec_steps (objects w e)));
          (t, w1) = Date_now w;
          w2 = assign e (\<lambda>x. x\<lparr>exec_endTime := Some t\<rparr>) w1;
          w3 = assign e (\<lambda>x. x\<lparr>exec_status := (if hasFailedStep then Failed else Completed)\<rparr>) w2;
          w4 = assign e (\<lambda>x. x\<lparr>exec_finalOutput := finalOutput\<rparr>) w3
      in case call_opt (cfg_onExecutionComplete (config this)) (ExecutionArg e) w4 of
           (Threw c, w5) \<Rightarrow> (Threw c, w5)
         | (Returned u, w5) \<Rightarrow> autosave_return this e w5)"

text \<open>
  \<open>getExecution\<close> is \<open>{ ...this.execution }\<close>: a new object with the same property
  values, the reference of the step array among them. \<open>getSteps\<close> is
  \<open>[...this.execution.steps]\<close>: a new array with the same elements.
\<close>

definition getExecution :: "'v XRayInstance \<Rightarrow> 'v world \<Rightarrow> ref \<times> 'v world" where
  "getExecution this w = new_object (objects w (execution this)) w"

definition getSteps :: "'v XRayInstance \<Rightarrow> 'v world \<Rightarrow> ref \<times> 'v world" where
  "getSteps this w = new_array (arrays w (exec_steps (objects w (execution this)))) w"

section \<open>Notions the properties are stated with\<close>

text \<open>The calls of subscribers that one \<open>save\<close> makes: what it adds to the log.\<close>

definition notifications :: "ref \<Rightarrow> 'v world \<Rightarrow> (callback \<times> 'v arg) list" where
  "notifications e w = drop (length (calls w)) (calls (snd (save e w)))"

text \<open>
  The subscribers a \<open>forEach\<close> over \<open>cs\<close> calls: all up to and including the first one
  that throws.
\<close>

fun notified :: "callback list \<Rightarrow> callback list" where
  "notified [] = []"
| "notified (c # cs) = (if throws c then [c] else c # notified cs)"

text \<open>The tag set of an execution; a missing \<open>tags\<close> property is the empty set.\<close>

definition tag_set :: "'v XRayExecution \<Rightarrow> string set" where
  "tag_set x = (case exec_tags x of None \<Rightarrow> {} | Some l \<Rightarrow> set l)"

text \<open>
  The two terminal calls of a step builder, as data, so that a property can speak of
  any of them; \<open>terminal_status\<close> is the status the call gives the step.
\<close>

datatype 'v terminal = Complete 'v "StepMetrics option" | Fail string

fun end_step :: "'v terminal \<Rightarrow> 'v StepBuilder \<Rightarrow> 'v world \<Rightarrow> 'v XRayStep completion \<times> 'v world" where
  "end_step (Complete out metrics) b w = complete b out metrics w"
| "end_step (Fail err) b w = fail b err w"

fun terminal_status :: "'v terminal \<Rightarrow> StepStatus" where
  "terminal_status (Complete out metrics) = Completed"
| "terminal_status (Fail err) = Failed"

text \<open>
  Statements of a caller's script in sequence: the next one runs when the one before
  returned, and an exception ends the script.
\<close>

definition and_then ::
  "'a completion \<times> 'v world \<Rightarrow> ('a \<Rightarrow> 'v world \<Rightarrow> 'b completion \<times> 'v world) \<Rightarrow>
   'b completion \<times> 'v world" where
  "and_then m f = (case m of (Returned x, w) \<Rightarrow> f x w | (Threw c, w) \<Rightarrow> (Threw c, w))"

section \<open>Concrete worlds\<close>

text \<open>
  A process that has just started: nothing allocated, an empty store. The content of a
  heap cell that is not allocated is never read.
\<close>

definition blank :: "'v XRayExecution" where
  "blank =
     \<lparr>exec_id = [], exec_name = [], exec_description = None, exec_startTime = 0,
      exec_endTime = None, exec_status = Pending, exec_steps = 0, exec_context = None,
      exec_finalOutput = None, exec_tags = None\<rparr>"

definition fresh_world :: "(nat \<Rightarrow> int) \<Rightarrow> 'v world" where
  "fresh_world clk =
     \<lparr>objects = (\<lambda>r. blank), arrays = (\<lambda>r. []), allocated = 0, executions = [],
      subscribers = [], clock = clk, random = (\<lambda>n. ''k3x9q''), calls = []\<rparr>"

text \<open>A clock that advances by one millisecond from one reading to the next.\<close>

definition ticking :: "nat \<Rightarrow> int" where
  "ticking n = 1000 + int n"

text \<open>
  A clock that stands at 1000 for five readings and shows 1001 from the sixth on. In
  the script \<open>run_step\<close> below the fifth reading is the \<open>endTime\<close> of \<open>complete\<close> and the
  sixth the one its \<open>duration\<close> is computed from.
\<close>

definition late_tick :: "nat \<Rightarrow> int" where
  "late_tick n = (if n < 5 then 1000 else 1001)"

text \<open>\<open>createXRay()\<close>: the configuration \<open>{}\<close>, and \<open>{tags: ts}\<close>.\<close>

definition no_config :: "'v XRayConfig" where
  "no_config =
     \<lparr>cfg_executionName = None, cfg_description = None, cfg_context = None, cfg_tags = None,
      cfg_autoSave = None, cfg_onStepStart = None, cfg_onStepComplete = None,
      cfg_onExecutionComplete = None\<rparr>"

definition tagged :: "string list \<Rightarrow> 'v XRayConfig" where
  "tagged ts = no_config\<lparr>cfg_tags := Some ts\<rparr>"

text \<open>\<open>findAll()\<close>: the options \<open>{}\<close>.\<close>

definition no_options :: QueryOptions where
  "no_options =
     \<lparr>limit = None, offset = None, status = None, tags = None, fromTime = None,
      toTime = None, orderBy = None, orderDirection = None\<rparr>"

text \<open>
  Three executions created one after the other, tagged \<open>['c']\<close>, \<open>['a', 'c']\<close> and
  \<open>['b']\<close>; each constructor saves its execution. They are the objects 1, 3 and 5.
\<close>

definition demo_store :: "nat world" where
  "demo_store =
     snd (createXRay (tagged [''b''])
       (snd (createXRay (tagged [''a'', ''c''])
         (snd (createXRay (tagged [''c'']) (fresh_world ticking))))))"

text \<open>
  One execution (the object 1) and three subscribers, registered in this order: one
  that returns, one that throws, one that returns.
\<close>

definition one_execution :: "nat world" where
  "one_execution = snd (createXRay no_config (fresh_world ticking))"

definition watched_store :: "nat world" where
  "watched_store =
     snd (subscribe (Callback 3 False)
       (snd (subscribe (Callback 2 True)
         (snd (subscribe (Callback 1 False) one_execution)))))"

text \<open>
  The instance the constructor returns in \<open>one_execution\<close>, and a step record a caller
  made up.
\<close>

definition first_instance :: "nat XRayInstance" where
  "first_instance = \<lparr>execution = 1, config = no_config, autoSave = True\<rparr>"

definition stray_step :: "nat XRayStep" where
  "stray_step =
     \<lparr>step_id = ''x'', step_name = ''injected'', step_type = Custom, step_status = Failed,
      step_startTime = 0, step_endTime = None, step_input = None, step_output = None,
      step_reasoning = None, step_metrics = None, step_evaluations = None,
      step_filtersApplied = None, step_metadata = None, step_error = None\<rparr>"

text \<open>
  Scripts of a caller: open a step and end it; end it twice; open a step only.
\<close>

definition run_step :: "(nat \<Rightarrow> int) \<Rightarrow> nat terminal \<Rightarrow> nat XRayStep completion \<times> nat world" where
  "run_step clk t =
     and_then (createXRay no_config (fresh_world clk))
       (\<lambda>this w1. and_then (step this ''rank'' (Some Rank) w1)
         (\<lambda>b w2. end_step t b w2))"

definition run_step_twice :: "nat terminal \<Rightarrow> nat terminal \<Rightarrow> nat XRayStep completion \<times> nat world" where
  "run_step_twice t1 t2 =
     and_then (createXRay no_config (fresh_world ticking))
       (\<lambda>this w1. and_then (step this ''rank'' (Some Rank) w1)
         (\<lambda>b w2. and_then (end_step t1 b w2)
           (\<lambda>s w3. end_step t2 b w3)))"

definition run_open :: "nat StepBuilder completion \<times> nat world" where
  "run_open =
     and_then (createXRay no_config (fresh_world ticking))
       (\<lambda>this w1. step this ''rank'' (Some Rank) w1)"

section \<open>Lemmas\<close>

subsection \<open>Callbacks and the store\<close>

lemma Set_add_idem: "Set_add x (Set_add x s) = Set_add x s"
  by (simp add: Set_add_def)

lemma distinct_Set_add: "distinct s \<Longrightarrow> distinct (Set_add x s)"
  by (simp add: Set_add_def)

lemma distinct_Set_delete: "distinct s \<Longrightarrow> distinct (Set_delete x s)"
  by (simp add: Set_delete_def distinct_removeAll)

lemma forEach_no_throw:
  "\<forall>c\<in>set cbs. \<not> throws c \<Longrightarrow>
   forEach cbs a w = (Returned (), w\<lparr>calls := calls w @ map (\<lambda>c. (c, a)) cbs\<rparr>)"
  by (induction cbs arbitrary: w) (simp_all add: call_def)

lemma forEach_first_throw:
  "\<forall>x\<in>set pre. \<not> throws x \<Longrightarrow> throws c \<Longrightarrow>
   forEach (pre @ c # post) a w = (Threw c, w\<lparr>calls := calls w @ map (\<lambda>x. (x, a)) (pre @ [c])\<rparr>)"
  by (induction pre arbitrary: w) (simp_all add: call_def)

lemma forEach_calls:
  "calls (snd (forEach cbs a w)) = calls w @ map (\<lambda>c. (c, a)) (notified cbs)"
  by (induction cbs arbitrary: w) (simp_all add: call_def)

lemma forEach_frame:
  "objects (snd (forEach cbs a w)) = objects w \<and> arrays (snd (forEach cbs a w)) = arrays w \<and>
   allocated (snd (forEach cbs a w)) = allocated w \<and>
   executions (snd (forEach cbs a w)) = executions w \<and>
   subscribers (snd (forEach cbs a w)) = subscribers w \<and>
   clock (snd (forEach cbs a w)) = clock w"
  by (induction cbs arbitrary: w) (simp_all add: call_def)

lemma forEach_throws: "fst (forEach cbs a w) = Threw c \<Longrightarrow> throws c \<and> c \<in> set cbs"
  by (induction cbs arbitrary: w) (auto simp: call_def split: if_splits)

lemma notifications_eq:
  "notifications e w = map (\<lambda>c. (c, ExecutionArg e)) (notified (subscribers w))"
  by (simp add: notifications_def save_def forEach_calls)

lemma count_list_distinct: "distinct xs \<Longrightarrow> x \<in> set xs \<Longrightarrow> count_list xs x = 1"
  by (induction xs) auto

lemma set_notified: "set (notified cs) \<subseteq> set cs"
  by (induction cs) auto

lemma count_notified_exact:
  "distinct cs \<Longrightarrow> cb \<in> set cs \<Longrightarrow>
   count_list (notified cs) cb =
     (if list_ex throws (takeWhile (\<lambda>c. c \<noteq> cb) cs) then 0 else 1)"
proof (induction cs)
  case Nil
  then show ?case by simp
next
  case (Cons c cs)
  show ?case
  proof (cases "c = cb")
    case True
    with Cons.prems have "cb \<notin> set (notified cs)"
      using set_notified [of cs] by auto
    with True show ?thesis by (simp add: count_list_0_iff)
  next
    case False
    with Cons show ?thesis by simp
  qed
qed

lemma save_frame:
  "objects (snd (save e w)) = objects w \<and> arrays (snd (save e w)) = arrays w \<and>
   allocated (snd (save e w)) = allocated w \<and>
   subscribers (snd (save e w)) = subscribers w \<and>
   clock (snd (save e w)) = clock w \<and>
   executions (snd (save e w)) = AList.update (exec_id (objects w e)) e (executions w)"
  by (simp add: save_def forEach_frame)

lemma save_throws: "fst (save e w) = Threw c \<Longrightarrow> throws c \<and> c \<in> set (subscribers w)"
  using forEach_throws [of "subscribers w" "ExecutionArg e" _ c] by (simp add: save_def)

lemma call_opt_frame:
  "objects (snd (call_opt c a w)) = objects w \<and> arrays (snd (call_opt c a w)) = arrays w \<and>
   allocated (snd (call_opt c a w)) = allocated w \<and>
   executions (snd (call_opt c a w)) = executions w \<and>
   subscribers (snd (call_opt c a w)) = subscribers w \<and>
   clock (snd (call_opt c a w)) = clock w"
  by (simp add: call_opt_def call_def split: option.splits)

lemma call_opt_throws: "fst (call_opt cbo a w) = Threw c \<Longrightarrow> throws c \<and> cbo = Some c"
  by (auto simp: call_opt_def call_def split: option.splits if_splits)

lemma call_opt_returns:
  "(\<forall>c. cbo = Some c \<longrightarrow> \<not> throws c) \<Longrightarrow> fst (call_opt cbo a w) = Returned ()"
  by (simp add: call_opt_def call_def split: option.splits)

lemma save_returns:
  "\<forall>c\<in>set (subscribers w). \<not> throws c \<Longrightarrow> fst (save e w) = Returned ()"
  by (simp add: save_def forEach_no_throw)

subsection \<open>Sorting and paging\<close>

lemma mset_insert_by: "mset (insert_by cmp x xs) = add_mset x (mset xs)"
  by (induction xs) simp_all

lemma mset_Array_sort: "mset (Array_sort cmp xs) = mset xs"
  by (induction xs) (simp_all add: Array_sort_def mset_insert_by)

lemma length_Array_sort: "length (Array_sort cmp xs) = length xs"
  using mset_Array_sort [of cmp xs] by (metis size_mset)

lemma take_min_length: "take (min l (length ys)) ys = take l ys"
  by (cases "l \<le> length ys") (simp_all add: min_def)

lemma Array_slice_nat:
  "Array_slice (int i) (int i + int l) xs = take l (drop i xs)"
proof (cases "i \<le> length xs")
  case True
  then have "nat (min (int i + int l) (int (length xs)) - int i) = min l (length (drop i xs))"
    by (auto simp: min_def)
  with True show ?thesis
    by (simp add: Array_slice_def Let_def take_min_length del: length_drop)
next
  case False
  then show ?thesis
    by (simp add: Array_slice_def Let_def min_def)
qed

lemma Array_slice_nonneg:
  "0 \<le> a \<Longrightarrow> 0 \<le> b \<Longrightarrow> Array_slice a (a + b) xs = take (nat b) (drop (nat a) xs)"
  using Array_slice_nat [of "nat a" "nat b" xs] by simp

lemma Array_slice_all: "Array_slice 0 (int (length xs)) xs = xs"
  by (simp add: Array_slice_def)

lemma concat_pages: "concat (map (\<lambda>k. take l (drop (k * l) xs)) [0..<n]) = take (n * l) xs"
proof (induction n)
  case 0
  show ?case by simp
next
  case (Suc n)
  have "take (Suc n * l) xs = take (n * l + l) xs"
    by (simp add: add.commute)
  also have "\<dots> = take (n * l) xs @ take l (drop (n * l) xs)"
    by (rule take_add)
  finally show ?case using Suc by simp
qed

lemma sorted_results_page:
  "sorted_results lc (opts\<lparr>limit := l, offset := k\<rparr>) w = sorted_results lc opts w"
  by (simp add: sorted_results_def filtered_def)

lemma sorted_results_limit:
  "sorted_results lc (opts\<lparr>limit := l\<rparr>) w = sorted_results lc opts w"
  by (simp add: sorted_results_def filtered_def)

lemma findAll_unpaged:
  "findAll lc (opts\<lparr>limit := None, offset := None\<rparr>) w = sorted_results lc opts w"
  by (simp add: findAll_def Let_def sorted_results_page Array_slice_all)

lemma filtered_eq:
  "filtered options w =
     filter (\<lambda>e. (case status options of None \<Rightarrow> True | Some s \<Rightarrow> exec_status (objects w e) = s) \<and>
                 (case tags options of None \<Rightarrow> True
                  | Some ts \<Rightarrow> ts = [] \<or> tag_set (objects w e) \<inter> set ts \<noteq> {}) \<and>
                 (case fromTime options of None \<Rightarrow> True | Some t \<Rightarrow> t \<le> exec_startTime (objects w e)) \<and>
                 (case toTime options of None \<Rightarrow> True | Some t \<Rightarrow> exec_startTime (objects w e) \<le> t))
       (map snd (executions w))"
proof -
  have any: "list_ex (\<lambda>tag. case exec_tags x of None \<Rightarrow> False | Some etags \<Rightarrow> tag \<in> set etags) ts
             \<longleftrightarrow> tag_set x \<inter> set ts \<noteq> {}" for x :: "'a XRayExecution" and ts
    by (auto simp: tag_set_def list_ex_iff split: option.splits)
  show ?thesis
    unfolding filtered_def Let_def any
    by (cases "status options"; cases "tags options"; cases "fromTime options";
        cases "toTime options") (auto intro!: filter_cong)
qed

subsection \<open>The SDK\<close>

lemma autosave_return_frame:
  "objects (snd (autosave_return this r w)) = objects w \<and>
   arrays (snd (autosave_return this r w)) = arrays w \<and>
   allocated (snd (autosave_return this r w)) = allocated w"
  using save_frame [of "execution this" w]
  by (auto simp: autosave_return_def split: prod.splits completion.splits)

lemma autosave_return_result:
  "fst (autosave_return this r w) = Returned r' \<Longrightarrow> r' = r"
  by (auto simp: autosave_return_def split: if_splits prod.splits completion.splits)

lemma autosave_return_throws:
  "fst (autosave_return this r w) = Threw c \<Longrightarrow> throws c \<and> c \<in> set (subscribers w)"
  using save_throws [of "execution this" w c]
  by (auto simp: autosave_return_def split: if_splits prod.splits completion.splits)

lemma autosave_return_returns:
  "(autoSave this \<longrightarrow> (\<forall>c\<in>set (subscribers w). \<not> throws c)) \<Longrightarrow>
   fst (autosave_return this r w) = Returned r"
  using save_returns [of w "execution this"]
  by (auto simp: autosave_return_def split: prod.splits completion.splits)

lemma autosave_return_store:
  "subscribers (snd (autosave_return this r w)) = subscribers w \<and>
   clock (snd (autosave_return this r w)) = clock w"
  using save_frame [of "execution this" w]
  by (auto simp: autosave_return_def split: prod.splits completion.splits)

lemma autosave_return_thrower:
  "fst (autosave_return this r w) = Threw c \<Longrightarrow>
   throws c \<and> autoSave this \<and> c \<in> set (subscribers w)"
  using save_throws [of "execution this" w c]
  by (auto simp: autosave_return_def split: if_splits prod.splits completion.splits)

lemma hook_then_autosave:
  fixes w :: "'v world" and hook :: "callback option" and a :: "'v arg"
    and this :: "'v XRayInstance" and s :: 'r
  defines "res \<equiv> (case call_opt hook a w of
                    (Threw c, w4) \<Rightarrow> (Threw c, w4)
                  | (Returned u, w4) \<Rightarrow> autosave_return this s w4)"
  shows "objects (snd res) = objects w"
    and "arrays (snd res) = arrays w"
    and "subscribers (snd res) = subscribers w"
    and "clock (snd res) = clock w"
    and "fst res = Returned s' \<Longrightarrow> s' = s"
    and "fst res = Threw c \<Longrightarrow>
           throws c \<and> (hook = Some c \<or> autoSave this \<and> c \<in> set (subscribers w))"
    and "(\<forall>c. hook = Some c \<longrightarrow> \<not> throws c) \<Longrightarrow>
         (autoSave this \<longrightarrow> (\<forall>c\<in>set (subscribers w). \<not> throws c)) \<Longrightarrow>
         fst res = Returned s"
proof -
  obtain o1 w4 where r: "call_opt hook a w = (o1, w4)"
    by (cases "call_opt hook a w")
  have fr: "objects w4 = objects w" "arrays w4 = arrays w" "subscribers w4 = subscribers w"
    "clock w4 = clock w"
    using call_opt_frame [of hook a w] by (simp_all add: r)
  have "objects (snd res) = objects w \<and> arrays (snd res) = arrays w \<and>
        subscribers (snd res) = subscribers w \<and> clock (snd res) = clock w"
    using fr by (auto simp: res_def r autosave_return_frame autosave_return_store
                      split: completion.splits)
  then show "objects (snd res) = objects w" "arrays (snd res) = arrays w"
    "subscribers (snd res) = subscribers w" "clock (snd res) = clock w"
    by simp_all
  show "fst res = Returned s' \<Longrightarrow> s' = s"
    by (auto simp: res_def r split: completion.splits dest: autosave_return_result)
  show "fst res = Threw c \<Longrightarrow>
           throws c \<and> (hook = Some c \<or> autoSave this \<and> c \<in> set (subscribers w))"
    using call_opt_throws [of hook a w c] fr
    by (auto simp: res_def r split: completion.splits dest: autosave_return_thrower)
  show "fst res = Returned s"
    if "\<forall>c. hook = Some c \<longrightarrow> \<not> throws c"
      and "autoSave this \<longrightarrow> (\<forall>c\<in>set (subscribers w). \<not> throws c)"
  proof -
    have "o1 = Returned ()"
      using call_opt_returns [OF that(1), of a w] by (simp add: r)
    then show ?thesis
      using autosave_return_returns [of this w4 s] that(2) fr
      by (simp add: res_def r)
  qed
qed

lemma apply_setter_frame:
  "xray (apply_setter s b) = xray b \<and> startTime (apply_setter s b) = startTime b \<and>
   step_id (stepData (apply_setter s b)) = step_id (stepData b) \<and>
   step_status (stepData (apply_setter s b)) = step_status (stepData b) \<and>
   step_startTime (stepData (apply_setter s b)) = step_startTime (stepData b)"
  by (cases s)
     (simp_all add: withInput_def withFilters_def withEvaluations_def withReasoning_def
        withMetadata_def)

lemma setters_frame:
  "xray (setters ss b) = xray b \<and> startTime (setters ss b) = startTime b \<and>
   step_id (stepData (setters ss b)) = step_id (stepData b) \<and>
   step_status (stepData (setters ss b)) = step_status (stepData b) \<and>
   step_startTime (stepData (setters ss b)) = step_startTime (stepData b)"
  unfolding setters_def
  by (induction ss arbitrary: b) (simp_all add: apply_setter_frame)


lemma complete_effect:
  fixes b :: "'v StepBuilder" and w :: "'v world" and out :: 'v and m :: "StepMetrics option"
  defines "a \<equiv> exec_steps (objects w (execution (xray b)))"
  defines "s \<equiv> (stepData b)
             \<lparr>step_output := Some out,
              step_status := Completed,
              step_endTime := Some (clock w 0),
              step_metrics := Some ((case m of None \<Rightarrow> no_metrics | Some x \<Rightarrow> x)
                                      \<lparr>duration := Some (clock w 1 - startTime b)\<rparr>)\<rparr>"
  shows "arrays (snd (complete b out m w)) = (arrays w)(a := arrays w a @ [s])"
    and "objects (snd (complete b out m w)) = objects w"
    and "fst (complete b out m w) = Returned s' \<Longrightarrow> s' = s"
    and "fst (complete b out m w) = Threw c \<Longrightarrow> throws c"
proof -
  define w3 where "w3 = Array_push a s (snd (Date_now (snd (Date_now w))))"
  define r where "r = call_opt (cfg_onStepComplete (config (xray b))) (StepArg s) w3"
  have c: "complete b out m w =
     (case r of (Threw c, w4) \<Rightarrow> (Threw c, w4)
      | (Returned u, w4) \<Rightarrow> autosave_return (xray b) s w4)"
    by (simp add: complete_def Let_def Date_now_def w3_def r_def a_def s_def
          split: prod.splits completion.splits)
  have h: "arrays w3 = (arrays w)(a := arrays w a @ [s])" "objects w3 = objects w"
    by (simp_all add: w3_def Array_push_def Date_now_def)
  have fr: "arrays (snd r) = arrays w3" "objects (snd r) = objects w3"
    by (simp_all add: r_def call_opt_frame)
  show "arrays (snd (complete b out m w)) = (arrays w)(a := arrays w a @ [s])"
    using fr h by (auto simp: c autosave_return_frame split: prod.splits completion.splits)
  show "objects (snd (complete b out m w)) = objects w"
    using fr h by (auto simp: c autosave_return_frame split: prod.splits completion.splits)
  show "fst (complete b out m w) = Returned s' \<Longrightarrow> s' = s"
    by (auto simp: c split: prod.splits completion.splits dest: autosave_return_result)
  show "fst (complete b out m w) = Threw c \<Longrightarrow> throws c"
    using call_opt_throws [of "cfg_onStepComplete (config (xray b))" "StepArg s" w3 c]
    by (auto simp: c r_def [symmetric] split: prod.splits completion.splits
             dest: autosave_return_throws)
qed

lemma fail_effect:
  fixes b :: "'v StepBuilder" and w :: "'v world" and err :: string
  defines "a \<equiv> exec_steps (objects w (execution (xray b)))"
  defines "s \<equiv> (stepData b)
             \<lparr>step_status := Failed,
              step_endTime := Some (clock w 0),
              step_error := Some err,
              step_metrics := Some (no_metrics\<lparr>duration := Some (clock w 1 - startTime b)\<rparr>)\<rparr>"
  shows "arrays (snd (fail b err w)) = (arrays w)(a := arrays w a @ [s])"
    and "objects (snd (fail b err w)) = objects w"
    and "fst (fail b err w) = Returned s' \<Longrightarrow> s' = s"
    and "fst (fail b err w) = Threw c \<Longrightarrow> throws c"
proof -
  define w3 where "w3 = Array_push a s (snd (Date_now (snd (Date_now w))))"
  define r where "r = call_opt (cfg_onStepComplete (config (xray b))) (StepArg s) w3"
  have c: "fail b err w =
     (case r of (Threw c, w4) \<Rightarrow> (Threw c, w4)
      | (Returned u, w4) \<Rightarrow> autosave_return (xray b) s w4)"
    by (simp add: fail_def Let_def Date_now_def w3_def r_def a_def s_def
          split: prod.splits completion.splits)
  have h: "arrays w3 = (arrays w)(a := arrays w a @ [s])" "objects w3 = objects w"
    by (simp_all add: w3_def Array_push_def Date_now_def)
  have fr: "arrays (snd r) = arrays w3" "objects (snd r) = objects w3"
    by (simp_all add: r_def call_opt_frame)
  show "arrays (snd (fail b err w)) = (arrays w)(a := arrays w a @ [s])"
    using fr h by (auto simp: c autosave_return_frame split: prod.splits completion.splits)
  show "objects (snd (fail b err w)) = objects w"
    using fr h by (auto simp: c autosave_return_frame split: prod.splits completion.splits)
  show "fst (fail b err w) = Returned s' \<Longrightarrow> s' = s"
    by (auto simp: c split: prod.splits completion.splits dest: autosave_return_result)
  show "fst (fail b err w) = Threw c \<Longrightarrow> throws c"
    using call_opt_throws [of "cfg_onStepComplete (config (xray b))" "StepArg s" w3 c]
    by (auto simp: c r_def [symmetric] split: prod.splits completion.splits
             dest: autosave_return_throws)
qed

lemma complete_unfold:
  "complete b out m w =
     (case call_opt (cfg_onStepComplete (config (xray b)))
             (StepArg ((stepData b)
                \<lparr>step_output := Some out, step_status := Completed,
                 step_endTime := Some (clock w 0),
                 step_metrics := Some ((case m of None \<Rightarrow> no_metrics | Some x \<Rightarrow> x)
                                         \<lparr>duration := Some (clock w 1 - startTime b)\<rparr>)\<rparr>))
             (Array_push (exec_steps (objects w (execution (xray b))))
                ((stepData b)
                   \<lparr>step_output := Some out, step_status := Completed,
                    step_endTime := Some (clock w 0),
                    step_metrics := Some ((case m of None \<Rightarrow> no_metrics | Some x \<Rightarrow> x)
                                            \<lparr>duration := Some (clock w 1 - startTime b)\<rparr>)\<rparr>)
                (snd (Date_now (snd (Date_now w))))) of
        (Threw c, w4) \<Rightarrow> (Threw c, w4)
      | (Returned u, w4) \<Rightarrow>
          autosave_return (xray b)
            ((stepData b)
               \<lparr>step_output := Some out, step_status := Completed,
                step_endTime := Some (clock w 0),
                step_metrics := Some ((case m of None \<Rightarrow> no_metrics | Some x \<Rightarrow> x)
                                        \<lparr>duration := Some (clock w 1 - startTime b)\<rparr>)\<rparr>) w4)"
  by (simp add: complete_def Let_def Date_now_def split: prod.splits completion.splits)

lemma fail_unfold:
  "fail b err w =
     (case call_opt (cfg_onStepComplete (config (xray b)))
             (StepArg ((stepData b)
                \<lparr>step_status := Failed, step_endTime := Some (clock w 0),
                 step_error := Some err,
                 step_metrics := Some (no_metrics\<lparr>duration := Some (clock w 1 - startTime b)\<rparr>)\<rparr>))
             (Array_push (exec_steps (objects w (execution (xray b))))
                ((stepData b)
                   \<lparr>step_status := Failed, step_endTime := Some (clock w 0),
                    step_error := Some err,
                    step_metrics := Some (no_metrics\<lparr>duration := Some (clock w 1 - startTime b)\<rparr>)\<rparr>)
                (snd (Date_now (snd (Date_now w))))) of
        (Threw c, w4) \<Rightarrow> (Threw c, w4)
      | (Returned u, w4) \<Rightarrow>
          autosave_return (xray b)
            ((stepData b)
               \<lparr>step_status := Failed, step_endTime := Some (clock w 0),
                step_error := Some err,
                step_metrics := Some (no_metrics\<lparr>duration := Some (clock w 1 - startTime b)\<rparr>)\<rparr>) w4)"
  by (simp add: fail_def Let_def Date_now_def split: prod.splits completion.splits)

lemma end_step_exact:
  "\<exists>s. arrays (snd (end_step t b w)) =
          (arrays w)(exec_steps (objects w (execution (xray b))) :=
             arrays w (exec_steps (objects w (execution (xray b)))) @ [s]) \<and>
       objects (snd (end_step t b w)) = objects w \<and>
       subscribers (snd (end_step t b w)) = subscribers w \<and>
       clock (snd (end_step t b w)) = (\<lambda>n. clock w (Suc (Suc n))) \<and>
       s = (stepData b)
             \<lparr>step_status := terminal_status t, step_endTime := Some (clock w 0),
              step_output := step_output s, step_error := step_error s,
              step_metrics := step_metrics s\<rparr> \<and>
       (case fst (end_step t b w) of
          Returned s' \<Rightarrow> s' = s
        | Threw c \<Rightarrow> throws c \<and> (cfg_onStepComplete (config (xray b)) = Some c \<or>
                                  autoSave (xray b) \<and> c \<in> set (subscribers w))) \<and>
       ((\<forall>c. cfg_onStepComplete (config (xray b)) = Some c \<longrightarrow> \<not> throws c) \<and>
        (autoSave (xray b) \<longrightarrow> (\<forall>c\<in>set (subscribers w). \<not> throws c)) \<longrightarrow>
        fst (end_step t b w) = Returned s)"
proof (cases t)
  case (Complete out m)
  define s where "s = (stepData b)
       \<lparr>step_output := Some out, step_status := Completed,
        step_endTime := Some (clock w 0),
        step_metrics := Some ((case m of None \<Rightarrow> no_metrics | Some x \<Rightarrow> x)
                                \<lparr>duration := Some (clock w 1 - startTime b)\<rparr>)\<rparr>"
  define w3 where "w3 = Array_push (exec_steps (objects w (execution (xray b)))) s
                          (snd (Date_now (snd (Date_now w))))"
  have u: "end_step t b w =
     (case call_opt (cfg_onStepComplete (config (xray b))) (StepArg s) w3 of
        (Threw c, w4) \<Rightarrow> (Threw c, w4)
      | (Returned u, w4) \<Rightarrow> autosave_return (xray b) s w4)"
    by (simp only: Complete end_step.simps complete_unfold s_def w3_def)
  have w3: "arrays w3 = (arrays w)(exec_steps (objects w (execution (xray b))) :=
             arrays w (exec_steps (objects w (execution (xray b)))) @ [s])"
    "objects w3 = objects w" "subscribers w3 = subscribers w"
    "clock w3 = (\<lambda>n. clock w (Suc (Suc n)))"
    by (simp_all add: w3_def Array_push_def Date_now_def)
  have s: "s = (stepData b)
             \<lparr>step_status := terminal_status t, step_endTime := Some (clock w 0),
              step_output := step_output s, step_error := step_error s,
              step_metrics := step_metrics s\<rparr>"
    by (simp add: s_def Complete)
  note h = hook_then_autosave [where hook = "cfg_onStepComplete (config (xray b))"
      and a = "StepArg s" and w = w3 and this = "xray b" and s = s, folded u]
  have o: "case fst (end_step t b w) of
             Returned s' \<Rightarrow> s' = s
           | Threw c \<Rightarrow> throws c \<and> (cfg_onStepComplete (config (xray b)) = Some c \<or>
                                     autoSave (xray b) \<and> c \<in> set (subscribers w))"
  proof (cases "fst (end_step t b w)")
    case (Returned s')
    with h(5) [of s'] show ?thesis by simp
  next
    case (Threw c)
    with h(6) [of c] show ?thesis by (simp add: w3)
  qed
  have n: "(\<forall>c. cfg_onStepComplete (config (xray b)) = Some c \<longrightarrow> \<not> throws c) \<and>
        (autoSave (xray b) \<longrightarrow> (\<forall>c\<in>set (subscribers w). \<not> throws c)) \<longrightarrow>
        fst (end_step t b w) = Returned s"
    using h(7) by (simp add: w3)
  have f: "arrays (snd (end_step t b w)) =
          (arrays w)(exec_steps (objects w (execution (xray b))) :=
             arrays w (exec_steps (objects w (execution (xray b)))) @ [s])"
    "objects (snd (end_step t b w)) = objects w"
    "subscribers (snd (end_step t b w)) = subscribers w"
    "clock (snd (end_step t b w)) = (\<lambda>n. clock w (Suc (Suc n)))"
    using h(1-4) by (simp_all only: w3)
  show ?thesis
    by (rule exI [of _ s]) (intro conjI f s o n)
next
  case (Fail err)
  define s where "s = (stepData b)
       \<lparr>step_status := Failed, step_endTime := Some (clock w 0),
        step_error := Some err,
        step_metrics := Some (no_metrics\<lparr>duration := Some (clock w 1 - startTime b)\<rparr>)\<rparr>"
  define w3 where "w3 = Array_push (exec_steps (objects w (execution (xray b)))) s
                          (snd (Date_now (snd (Date_now w))))"
  have u: "end_step t b w =
     (case call_opt (cfg_onStepComplete (config (xray b))) (StepArg s) w3 of
        (Threw c, w4) \<Rightarrow> (Threw c, w4)
      | (Returned u, w4) \<Rightarrow> autosave_return (xray b) s w4)"
    by (simp only: Fail end_step.simps fail_unfold s_def w3_def)
  have w3: "arrays w3 = (arrays w)(exec_steps (objects w (execution (xray b))) :=
             arrays w (exec_steps (objects w (execution (xray b)))) @ [s])"
    "objects w3 = objects w" "subscribers w3 = subscribers w"
    "clock w3 = (\<lambda>n. clock w (Suc (Suc n)))"
    by (simp_all add: w3_def Array_push_def Date_now_def)
  have s: "s = (stepData b)
             \<lparr>step_status := terminal_status t, step_endTime := Some (clock w 0),
              step_output := step_output s, step_error := step_error s,
              step_metrics := step_metrics s\<rparr>"
    by (simp add: s_def Fail)
  note h = hook_then_autosave [where hook = "cfg_onStepComplete (config (xray b))"
      and a = "StepArg s" and w = w3 and this = "xray b" and s = s, folded u]
  have o: "case fst (end_step t b w) of
             Returned s' \<Rightarrow> s' = s
           | Threw c \<Rightarrow> throws c \<and> (cfg_onStepComplete (config (xray b)) = Some c \<or>
                                     autoSave (xray b) \<and> c \<in> set (subscribers w))"
  proof (cases "fst (end_step t b w)")
    case (Returned s')
    with h(5) [of s'] show ?thesis by simp
  next
    case (Threw c)
    with h(6) [of c] show ?thesis by (simp add: w3)
  qed
  have n: "(\<forall>c. cfg_onStepComplete (config (xray b)) = Some c \<longrightarrow> \<not> throws c) \<and>
        (autoSave (xray b) \<longrightarrow> (\<forall>c\<in>set (subscribers w). \<not> throws c)) \<longrightarrow>
        fst (end_step t b w) = Returned s"
    using h(7) by (simp add: w3)
  have f: "arrays (snd (end_step t b w)) =
          (arrays w)(exec_steps (objects w (execution (xray b))) :=
             arrays w (exec_steps (objects w (execution (xray b)))) @ [s])"
    "objects (snd (end_step t b w)) = objects w"
    "subscribers (snd (end_step t b w)) = subscribers w"
    "clock (snd (end_step t b w)) = (\<lambda>n. clock w (Suc (Suc n)))"
    using h(1-4) by (simp_all only: w3)
  show ?thesis
    by (rule exI [of _ s]) (intro conjI f s o n)
qed

lemma finalize_heap:
  "objects (snd (finalize this fo w)) =
     (objects w)(execution this := (objects w (execution this))
        \<lparr>exec_endTime := Some (clock w 0),
         exec_status := (if list_ex (\<lambda>s. step_status s = Failed)
                              (arrays w (exec_steps (objects w (execution this))))
                         then Failed else Completed),
         exec_finalOutput := fo\<rparr>)
   \<and> arrays (snd (finalize this fo w)) = arrays w"
proof -
  define w4 where "w4 = assign (execution this) (\<lambda>x. x\<lparr>exec_finalOutput := fo\<rparr>)
     (assign (execution this) (\<lambda>x. x\<lparr>exec_status := (if list_ex (\<lambda>s. step_status s = Failed)
                              (arrays w (exec_steps (objects w (execution this))))
                         then Failed else Completed)\<rparr>)
     (assign (execution this) (\<lambda>x. x\<lparr>exec_endTime := Some (clock w 0)\<rparr>) (snd (Date_now w))))"
  define r where "r = call_opt (cfg_onExecutionComplete (config this)) (ExecutionArg (execution this)) w4"
  have f: "finalize this fo w =
     (case r of (Threw c, w5) \<Rightarrow> (Threw c, w5)
      | (Returned u, w5) \<Rightarrow> autosave_return this (execution this) w5)"
    by (simp add: finalize_def Let_def Date_now_def w4_def r_def)
  have "objects (snd (finalize this fo w)) = objects w4 \<and> arrays (snd (finalize this fo w)) = arrays w4"
    using call_opt_frame [of "cfg_onExecutionComplete (config this)" "ExecutionArg (execution this)" w4]
    by (auto simp: f r_def [symmetric] autosave_return_frame split: prod.splits completion.splits)
  then show ?thesis
    by (simp add: w4_def assign_def Date_now_def)
qed

lemma finalize_result:
  "(case fst (finalize this fo w) of Returned x \<Rightarrow> x = execution this | Threw c \<Rightarrow> throws c)"
proof -
  define w4 where "w4 = assign (execution this) (\<lambda>x. x\<lparr>exec_finalOutput := fo\<rparr>)
     (assign (execution this) (\<lambda>x. x\<lparr>exec_status := (if list_ex (\<lambda>s. step_status s = Failed)
                              (arrays w (exec_steps (objects w (execution this))))
                         then Failed else Completed)\<rparr>)
     (assign (execution this) (\<lambda>x. x\<lparr>exec_endTime := Some (clock w 0)\<rparr>) (snd (Date_now w))))"
  have f: "finalize this fo w =
     (case call_opt (cfg_onExecutionComplete (config this)) (ExecutionArg (execution this)) w4 of
        (Threw c, w5) \<Rightarrow> (Threw c, w5)
      | (Returned u, w5) \<Rightarrow> autosave_return this (execution this) w5)"
    by (simp add: finalize_def Let_def Date_now_def w4_def)
  show ?thesis
    using call_opt_throws [of "cfg_onExecutionComplete (config this)" "ExecutionArg (execution this)" w4]
    by (auto simp: f split: prod.splits completion.splits
             dest: autosave_return_result autosave_return_throws)
qed

lemma new_XRayInstance_allocated:
  "fst (new_XRayInstance cfg w) = Returned this \<Longrightarrow>
   execution this < allocated (snd (new_XRayInstance cfg w))"
proof -
  assume a: "fst (new_XRayInstance cfg w) = Returned this"
  obtain x w4 where n: "new_XRayInstance cfg w =
      autosave_return \<lparr>execution = Suc (allocated w), config = cfg,
                       autoSave = (cfg_autoSave cfg \<noteq> Some False)\<rparr> x w4"
    and x: "x = \<lparr>execution = Suc (allocated w), config = cfg,
                       autoSave = (cfg_autoSave cfg \<noteq> Some False)\<rparr>"
    and al: "allocated w4 = Suc (Suc (allocated w))"
    by (simp add: new_XRayInstance_def generateId_def Date_now_def Math_random_def
          new_array_def new_object_def Let_def)
  from a n have "this = x"
    using autosave_return_result by fastforce
  then show ?thesis
    using autosave_return_frame [of x x w4] by (simp add: n x al)
qed

lemma complete_returned:
  assumes "fst (complete (setters ss b) out m w) = Returned s"
  shows "step_status s = Completed \<and> step_endTime s = Some (clock w 0) \<and>
         step_startTime s = step_startTime (stepData b) \<and>
         (\<exists>mt. step_metrics s = Some mt \<and> duration mt = Some (clock w 1 - startTime b))"
  using complete_effect(3) [OF assms] setters_frame [of ss b]
  by simp

lemma complete_duration_exact_iff:
  assumes "fst (complete (setters ss b) out m w) = Returned s"
    and "startTime b = step_startTime (stepData b)"
  shows "(\<exists>mt t. step_metrics s = Some mt \<and> step_endTime s = Some t \<and>
                 duration mt = Some (t - step_startTime s))
         \<longleftrightarrow> clock w 1 = clock w 0"
  using complete_returned [OF assms(1)] assms(2) by auto

subsection \<open>The concrete worlds\<close>

lemma no_options_fields:
  "limit no_options = None" "offset no_options = None" "status no_options = None"
  "tags no_options = None" "fromTime no_options = None" "toTime no_options = None"
  "orderBy no_options = None" "orderDirection no_options = None"
  by (simp_all add: no_options_def)

lemmas run_defs =
  createXRay_def new_XRayInstance_def generateId_def Date_now_def Math_random_def
  new_array_def new_object_def autosave_return_def save_def fresh_world_def ticking_def
  tagged_def no_config_def toString_def digits.simps Let_def subscribe_def Set_add_def

lemma demo_store_executions:
  "executions demo_store = [(''1000-k3x9q'', 1), (''1002-k3x9q'', 3), (''1004-k3x9q'', 5)]"
  by (simp add: demo_store_def run_defs)

lemma demo_store_objects:
  "objects demo_store (Suc 0) =
     \<lparr>exec_id = ''1000-k3x9q'', exec_name = ''Unnamed Execution'', exec_description = None,
      exec_startTime = 1001, exec_endTime = None, exec_status = Running, exec_steps = 0,
      exec_context = None, exec_finalOutput = None, exec_tags = Some [''c'']\<rparr>"
  "objects demo_store 3 =
     \<lparr>exec_id = ''1002-k3x9q'', exec_name = ''Unnamed Execution'', exec_description = None,
      exec_startTime = 1003, exec_endTime = None, exec_status = Running, exec_steps = 2,
      exec_context = None, exec_finalOutput = None, exec_tags = Some [''a'', ''c'']\<rparr>"
  "objects demo_store 5 =
     \<lparr>exec_id = ''1004-k3x9q'', exec_name = ''Unnamed Execution'', exec_description = None,
      exec_startTime = 1005, exec_endTime = None, exec_status = Running, exec_steps = 4,
      exec_context = None, exec_finalOutput = None, exec_tags = Some [''b'']\<rparr>"
  by (simp_all add: demo_store_def run_defs)

lemma demo_store_sorted:
  "sorted_results (\<lambda>a b. 0) no_options demo_store = [5, 3, 1]"
  by (simp add: sorted_results_def filtered_def no_options_fields demo_store_executions
        demo_store_objects Array_sort_def compareFn_def)

lemma one_execution_facts:
  "executions one_execution = [(''1000-k3x9q'', 1)]"
  "exec_id (objects one_execution (Suc 0)) = ''1000-k3x9q''"
  "subscribers one_execution = []"
  "calls one_execution = []"
  by (simp_all add: one_execution_def run_defs)

lemma watched_store_facts:
  "subscribers watched_store = [Callback 1 False, Callback 2 True, Callback 3 False]"
  "exec_id (objects watched_store (Suc 0)) = ''1000-k3x9q''"
  by (simp_all add: watched_store_def one_execution_facts subscribe_def Set_add_def)

lemmas script_defs =
  run_defs and_then_def step_def complete_def fail_def finalize_def call_opt_def
  Array_push_def assign_def first_instance_def

lemma createXRay_first:
  "createXRay no_config (fresh_world ticking) = (Returned first_instance, one_execution)"
  by (simp add: one_execution_def script_defs)

lemma one_execution_heap:
  "objects one_execution (Suc 0) =
     \<lparr>exec_id = ''1000-k3x9q'', exec_name = ''Unnamed Execution'', exec_description = None,
      exec_startTime = 1001, exec_endTime = None, exec_status = Running, exec_steps = 0,
      exec_context = None, exec_finalOutput = None, exec_tags = None\<rparr>"
  "arrays one_execution 0 = []"
  "allocated one_execution = 2"
  "clock one_execution = (\<lambda>n. 1002 + int n)"
  "random one_execution = (\<lambda>n. ''k3x9q'')"
  by (simp_all add: one_execution_def run_defs fun_eq_iff)

section \<open>The SDK: steps\<close>

text \<open>
  C1, the code at an input where the claim fails. \<open>complete\<close> reads the clock twice:
  \<open>endTime\<close> is the first reading, \<open>duration\<close> the second one minus \<open>startTime\<close>. On
  the clock \<open>late_tick\<close> the millisecond changes between the two readings: the step
  returned has \<open>startTime = 1000\<close> and \<open>endTime = 1000\<close>, so \<open>endTime - startTime = 0\<close>,
  and \<open>duration = 1\<close>. The status is \<open>completed\<close> and the caller's \<open>duration: 99\<close> is
  overridden, as claimed (\<open>complete_returned\<close> has both for every call); the duration
  is \<open>endTime - startTime\<close> exactly when the two readings agree
  (\<open>complete_duration_exact_iff\<close>).
\<close>

theorem complete_duration_late_tick:
  "fst (run_step late_tick (Complete 7 (Some (no_metrics\<lparr>duration := Some 99\<rparr>)))) =
     Returned
       \<lparr>step_id = ''1000-k3x9q'', step_name = ''rank'', step_type = Rank,
        step_status = Completed, step_startTime = 1000, step_endTime = Some 1000,
        step_input = None, step_output = Some 7, step_reasoning = None,
        step_metrics = Some (no_metrics\<lparr>duration := Some 1\<rparr>),
        step_evaluations = None, step_filtersApplied = None, step_metadata = None,
        step_error = None\<rparr>"
  by (simp add: run_step_def late_tick_def script_defs no_metrics_def)




text \<open>
  C4, as the code has it. A builder keeps working after a terminal call. Setters
  change the builder's \<open>stepData\<close> only, never the world. A second terminal call, with
  any setters before it, is not refused for the state of the builder: it appends a
  second record to the execution's step array, the builder's \<open>stepData\<close> as it is then
  with the terminal status and the end time set, so with the same step id; the record
  of the first call stays in place unchanged. An exception can leave the call only
  when the \<open>onStepComplete\<close> hook or, under \<open>autoSave\<close>, a subscriber of the store
  throws; when none of them throws (\<open>quiet\<close>) both calls return the record they
  appended.
\<close>

theorem terminal_call_twice:
  "(let a = exec_steps (objects w (execution (xray b)));
        r1 = end_step t1 b w;
        r2 = end_step t2 (setters ss b) (snd r1);
        quiet = ((\<forall>c. cfg_onStepComplete (config (xray b)) = Some c \<longrightarrow> \<not> throws c) \<and>
                 (autoSave (xray b) \<longrightarrow> (\<forall>c\<in>set (subscribers w). \<not> throws c)))
    in \<exists>s1 s2.
         arrays (snd r1) a = arrays w a @ [s1] \<and>
         arrays (snd r2) a = arrays w a @ [s1, s2] \<and>
         s1 = (stepData b)
                \<lparr>step_status := terminal_status t1, step_endTime := Some (clock w 0),
                 step_output := step_output s1, step_error := step_error s1,
                 step_metrics := step_metrics s1\<rparr> \<and>
         s2 = (stepData (setters ss b))
                \<lparr>step_status := terminal_status t2, step_endTime := Some (clock w 2),
                 step_output := step_output s2, step_error := step_error s2,
                 step_metrics := step_metrics s2\<rparr> \<and>
         step_id s1 = step_id (stepData b) \<and> step_id s2 = step_id (stepData b) \<and>
         step_status s1 = terminal_status t1 \<and> step_status s2 = terminal_status t2 \<and>
         (case fst r2 of
            Returned s \<Rightarrow> s = s2
          | Threw c \<Rightarrow> throws c \<and> (cfg_onStepComplete (config (xray b)) = Some c \<or>
                                    autoSave (xray b) \<and> c \<in> set (subscribers w))) \<and>
         (quiet \<longrightarrow> fst r1 = Returned s1 \<and> fst r2 = Returned s2))"
proof -
  define a where "a = exec_steps (objects w (execution (xray b)))"
  define r1 where "r1 = end_step t1 b w"
  define r2 where "r2 = end_step t2 (setters ss b) (snd r1)"
  define quiet where "quiet \<longleftrightarrow>
     (\<forall>c. cfg_onStepComplete (config (xray b)) = Some c \<longrightarrow> \<not> throws c) \<and>
     (autoSave (xray b) \<longrightarrow> (\<forall>c\<in>set (subscribers w). \<not> throws c))"
  obtain s1 where s1: "arrays (snd r1) = (arrays w)(a := arrays w a @ [s1])"
    "objects (snd r1) = objects w" "subscribers (snd r1) = subscribers w"
    "clock (snd r1) = (\<lambda>n. clock w (Suc (Suc n)))"
    "s1 = (stepData b)
            \<lparr>step_status := terminal_status t1, step_endTime := Some (clock w 0),
             step_output := step_output s1, step_error := step_error s1,
             step_metrics := step_metrics s1\<rparr>"
    "quiet \<longrightarrow> fst r1 = Returned s1"
    using end_step_exact [of t1 b w] unfolding a_def r1_def quiet_def by blast
  have x: "xray (setters ss b) = xray b"
    "step_id (stepData (setters ss b)) = step_id (stepData b)"
    using setters_frame [of ss b] by simp_all
  obtain s2 where s2: "arrays (snd r2) = (arrays (snd r1))(a := arrays (snd r1) a @ [s2])"
    "s2 = (stepData (setters ss b))
            \<lparr>step_status := terminal_status t2, step_endTime := Some (clock (snd r1) 0),
             step_output := step_output s2, step_error := step_error s2,
             step_metrics := step_metrics s2\<rparr>"
    "case fst r2 of
       Returned s \<Rightarrow> s = s2
     | Threw c \<Rightarrow> throws c \<and> (cfg_onStepComplete (config (xray b)) = Some c \<or>
                               autoSave (xray b) \<and> c \<in> set (subscribers w))"
    "quiet \<longrightarrow> fst r2 = Returned s2"
    using end_step_exact [of t2 "setters ss b" "snd r1"]
    unfolding a_def r2_def quiet_def x s1(2) s1(3) by blast
  have i1: "step_id s1 = step_id (stepData b)" "step_status s1 = terminal_status t1"
    by (subst s1(5), simp)+
  have i2: "step_id s2 = step_id (stepData b)" "step_status s2 = terminal_status t2"
    by (subst s2(2), simp add: x)+
  have e2: "s2 = (stepData (setters ss b))
            \<lparr>step_status := terminal_status t2, step_endTime := Some (clock w 2),
             step_output := step_output s2, step_error := step_error s2,
             step_metrics := step_metrics s2\<rparr>"
    using s2(2) by (simp add: s1(4) numeral_2_eq_2)
  have a1: "arrays (snd r1) a = arrays w a @ [s1]"
    by (simp add: s1(1))
  have a2: "arrays (snd r2) a = arrays w a @ [s1, s2]"
    by (simp add: s2(1) s1(1))
  have "arrays (snd r1) a = arrays w a @ [s1] \<and>
         arrays (snd r2) a = arrays w a @ [s1, s2] \<and>
         s1 = (stepData b)
                \<lparr>step_status := terminal_status t1, step_endTime := Some (clock w 0),
                 step_output := step_output s1, step_error := step_error s1,
                 step_metrics := step_metrics s1\<rparr> \<and>
         s2 = (stepData (setters ss b))
                \<lparr>step_status := terminal_status t2, step_endTime := Some (clock w 2),
                 step_output := step_output s2, step_error := step_error s2,
                 step_metrics := step_metrics s2\<rparr> \<and>
         step_id s1 = step_id (stepData b) \<and> step_id s2 = step_id (stepData b) \<and>
         step_status s1 = terminal_status t1 \<and> step_status s2 = terminal_status t2 \<and>
         (case fst r2 of
            Returned s \<Rightarrow> s = s2
          | Threw c \<Rightarrow> throws c \<and> (cfg_onStepComplete (config (xray b)) = Some c \<or>
                                    autoSave (xray b) \<and> c \<in> set (subscribers w))) \<and>
         (quiet \<longrightarrow> fst r1 = Returned s1 \<and> fst r2 = Returned s2)"
    using a1 a2 s1(5) e2 i1 i2 s2(3) s1(6) s2(4) by blast
  then show ?thesis
    unfolding Let_def a_def [symmetric] r1_def [symmetric] r2_def [symmetric]
      quiet_def [symmetric]
    by blast
qed

text \<open>
  C4, witness: \<open>complete\<close>, then \<open>withReasoning\<close> and \<open>fail\<close> on the same builder, with no
  hook and no subscriber: both calls return, and the execution holds two records with
  one id.
\<close>

theorem terminal_call_twice_witness:
  "(let w = snd run_open;
        opened = \<lparr>step_id = ''1002-k3x9q'', step_name = ''rank'', step_type = Rank,
                  step_status = Running, step_startTime = 1003, step_endTime = None,
                  step_input = None, step_output = None, step_reasoning = None,
                  step_metrics = None, step_evaluations = None, step_filtersApplied = None,
                  step_metadata = None, step_error = None\<rparr>;
        b = \<lparr>xray = first_instance, stepData = opened, startTime = 1003\<rparr>;
        r1 = end_step (Complete 7 None) b w;
        r2 = end_step (Fail ''late'') (setters [WithReasoning ''again''] b) (snd r1);
        s1 = opened\<lparr>step_status := Completed, step_endTime := Some 1004,
                    step_output := Some 7,
                    step_metrics := Some (no_metrics\<lparr>duration := Some 2\<rparr>)\<rparr>;
        s2 = opened\<lparr>step_status := Failed, step_endTime := Some 1006,
                    step_reasoning := Some ''again'', step_error := Some ''late'',
                    step_metrics := Some (no_metrics\<lparr>duration := Some 4\<rparr>)\<rparr>
    in fst run_open = Returned b \<and>
       cfg_onStepComplete (config (xray b)) = None \<and> subscribers w = [] \<and>
       fst r1 = Returned s1 \<and> arrays (snd r1) 0 = [s1] \<and>
       fst r2 = Returned s2 \<and> arrays (snd r2) 0 = [s1, s2])"
  using terminal_call_twice [of "snd run_open"
      "\<lparr>xray = first_instance,
        stepData = \<lparr>step_id = ''1002-k3x9q'', step_name = ''rank'', step_type = Rank,
                  step_status = Running, step_startTime = 1003, step_endTime = None,
                  step_input = None, step_output = None, step_reasoning = None,
                  step_metrics = None, step_evaluations = None, step_filtersApplied = None,
                  step_metadata = None, step_error = None\<rparr>,
        startTime = 1003\<rparr>" "Complete 7 None" "Fail ''late''" "[WithReasoning ''again'']"]
  by (simp add: Let_def run_open_def script_defs setters_def withReasoning_def no_metrics_def)

text \<open>
  C4, counterexample to the claim as stated (a further call fails or is a no-op and
  appends nothing): \<open>complete\<close> twice on one builder returns normally both times and
  the execution holds two step records.
\<close>

theorem terminal_call_twice_counterexample:
  "(case fst (run_step_twice (Complete 7 None) (Complete 8 None)) of
      Threw c \<Rightarrow> False
    | Returned s \<Rightarrow> step_status s = Completed \<and> step_output s = Some 8) \<and>
   map step_output (arrays (snd (run_step_twice (Complete 7 None) (Complete 8 None))) 0)
     = [Some 7, Some 8]"
  by (simp add: run_step_twice_def script_defs)

section \<open>The SDK: the execution\<close>

text \<open>
  C3. \<open>finalize\<close> sets the status of the execution to \<open>failed\<close> when one of its steps
  has the status \<open>failed\<close> and to \<open>completed\<close> otherwise, sets \<open>endTime\<close> to the clock's
  reading and \<open>finalOutput\<close> to its argument, and returns the execution (only an
  exception of a callback can leave it; the fields are set before any callback runs).
\<close>

theorem finalize_status:
  "(let e = execution this; r = finalize this fo w
    in exec_status (objects (snd r) e) =
         (if \<exists>s\<in>set (arrays w (exec_steps (objects w e))). step_status s = Failed
          then Failed else Completed) \<and>
       exec_endTime (objects (snd r) e) = Some (clock w 0) \<and>
       exec_finalOutput (objects (snd r) e) = fo \<and>
       arrays (snd r) = arrays w \<and>
       (case fst r of Returned x \<Rightarrow> x = e | Threw c \<Rightarrow> throws c))"
  using finalize_heap [of this fo w] finalize_result [of this fo w]
  by (simp add: Let_def list_ex_iff)

text \<open>
  C3, witness: an execution with one failed step finalizes as \<open>failed\<close>, one with one
  completed step as \<open>completed\<close>.
\<close>

theorem finalize_status_witness:
  "(let w = snd (run_step ticking (Fail ''boom'')); r = finalize first_instance (Some 42) w
    in map step_status (arrays w (exec_steps (objects w 1))) = [Failed] \<and>
       exec_status (objects (snd r) 1) = Failed \<and>
       exec_endTime (objects (snd r) 1) = Some 1006 \<and>
       exec_finalOutput (objects (snd r) 1) = Some 42) \<and>
   (let w = snd (run_step ticking (Complete 7 None)); r = finalize first_instance (Some 42) w
    in map step_status (arrays w (exec_steps (objects w 1))) = [Completed] \<and>
       exec_status (objects (snd r) 1) = Completed)"
  using finalize_status [of first_instance "Some 42" "snd (run_step ticking (Fail ''boom''))"]
    finalize_status [of first_instance "Some 42" "snd (run_step ticking (Complete 7 None))"]
  by (simp add: Let_def run_step_def script_defs)

text \<open>
  C5, as the code has it. \<open>getExecution\<close> returns a new object with the property values
  of the Builder's execution, the reference of its step array among them (a shallow
  copy). Assigning properties of the snapshot changes no object allocated before:
  neither the Builder's execution nor an object held by the store. The store keeps
  the reference \<open>save\<close> is given and \<open>get\<close> returns that reference, not a copy.
\<close>

theorem getExecution_shallow_copy:
  assumes "execution this < allocated w"
  shows "(let e = execution this; snap = fst (getExecution this w);
              w1 = snd (getExecution this w)
          in snap \<noteq> e \<and> objects w1 snap = objects w e \<and> objects w1 e = objects w e \<and>
             arrays w1 = arrays w \<and> executions w1 = executions w \<and>
             (\<forall>f. arrays (assign snap f w1) = arrays w \<and>
                  executions (assign snap f w1) = executions w \<and>
                  (\<forall>r. r < allocated w \<longrightarrow> objects (assign snap f w1) r = objects w r)) \<and>
             get (exec_id (objects w e)) (snd (save e w)) = Some e)"
  using assms save_frame [of "execution this" w]
  by (auto simp: Let_def getExecution_def new_object_def assign_def get_def update_conv')

text \<open>
  C5, witness: a snapshot of a new execution; assigning its status and name leaves the
  Builder's execution as it was.
\<close>

theorem getExecution_shallow_copy_witness:
  "execution first_instance < allocated one_execution \<and>
   (let snap = fst (getExecution first_instance one_execution);
        w1 = snd (getExecution first_instance one_execution);
        w2 = assign snap (\<lambda>x. x\<lparr>exec_status := Failed, exec_name := ''changed''\<rparr>) w1
    in snap = 2 \<and> exec_status (objects w2 snap) = Failed \<and>
       objects w2 1 = objects one_execution 1 \<and>
       exec_status (objects w2 1) = Running \<and>
       get ''1000-k3x9q'' (snd (save 1 one_execution)) = Some 1)"
  using getExecution_shallow_copy [of first_instance one_execution]
  by (simp add: Let_def first_instance_def one_execution_heap getExecution_def new_object_def
        assign_def)

text \<open>
  C5, counterexample to the claim as stated (a deep copy; the store holds copies): a
  step pushed to the snapshot's \<open>steps\<close> is in the Builder's step array, and the object
  \<open>get\<close> returns is the Builder's own execution, so an assignment through it changes
  the Builder's execution.
\<close>

theorem snapshot_shares_state_counterexample:
  "(let snap = fst (getExecution first_instance one_execution);
        w1 = snd (getExecution first_instance one_execution);
        w2 = Array_push (exec_steps (objects w1 snap)) stray_step w1
    in arrays w1 (exec_steps (objects w1 (execution first_instance))) = [] \<and>
       arrays w2 (exec_steps (objects w2 (execution first_instance))) = [stray_step]) \<and>
   get ''1000-k3x9q'' one_execution = Some (execution first_instance) \<and>
   exec_status (objects one_execution (execution first_instance)) = Running \<and>
   exec_status (objects (assign 1 (\<lambda>x. x\<lparr>exec_status := Failed\<rparr>) one_execution)
                  (execution first_instance)) = Failed"
  by (simp add: Let_def first_instance_def one_execution_heap one_execution_facts
        getExecution_def new_object_def assign_def Array_push_def get_def)

section \<open>The store: subscribers\<close>

text \<open>
  C6, as the code has it. \<open>save\<close> writes the execution into the map and then calls the
  subscribers in the order they were registered. There is no \<open>try\<close> around a call: when
  a subscriber \<open>c\<close> throws and none registered before it does, the exception leaves
  \<open>save\<close>, the subscribers called are those up to and including \<open>c\<close>, so none registered
  after \<open>c\<close> is notified, and the map holds the execution.
\<close>

theorem save_stops_at_throwing_subscriber:
  assumes "subscribers w = pre @ c # post" and "\<forall>x\<in>set pre. \<not> throws x" and "throws c"
  shows "fst (save e w) = Threw c \<and>
         notifications e w = map (\<lambda>x. (x, ExecutionArg e)) (pre @ [c]) \<and>
         get (exec_id (objects w e)) (snd (save e w)) = Some e"
proof -
  have "forEach (subscribers w) a w' =
          (Threw c, w'\<lparr>calls := calls w' @ map (\<lambda>x. (x, a)) (pre @ [c])\<rparr>)" for a and w' :: "'a world"
    unfolding assms(1) by (rule forEach_first_throw [OF assms(2,3)])
  then show ?thesis
    by (simp add: save_def notifications_def get_def update_conv')
qed

text \<open>
  C6, witness: three subscribers, the second throws. The first two are called, the
  exception of the second leaves \<open>save\<close>.
\<close>

theorem save_stops_at_throwing_subscriber_witness:
  "subscribers watched_store = [Callback 1 False] @ Callback 2 True # [Callback 3 False] \<and>
   fst (save 1 watched_store) = Threw (Callback 2 True) \<and>
   notifications 1 watched_store =
     [(Callback 1 False, ExecutionArg 1), (Callback 2 True, ExecutionArg 1)] \<and>
   get ''1000-k3x9q'' (snd (save 1 watched_store)) = Some 1"
  using save_stops_at_throwing_subscriber
          [of watched_store "[Callback 1 False]" "Callback 2 True" "[Callback 3 False]" 1]
  by (simp add: watched_store_facts)

text \<open>
  C6, counterexample to the claim as stated (a throwing subscriber is isolated): with
  the same three subscribers the exception reaches the caller of \<open>save\<close> and the third
  subscriber, registered and active, is not notified.
\<close>

theorem save_throwing_subscriber_counterexample:
  "fst (save 1 watched_store) = Threw (Callback 2 True) \<and>
   Callback 3 False \<in> set (subscribers watched_store) \<and>
   (Callback 3 False, ExecutionArg 1) \<notin> set (notifications 1 watched_store)"
  by (simp add: notifications_eq watched_store_facts save_def call_def)

text \<open>
  C10, as the code has it. Subscribing the same callback twice leaves the store as one
  subscription does; the callback is registered once. A \<open>save\<close> calls it once when no
  subscriber registered before it throws, and not at all when one does (the exception
  ends the \<open>forEach\<close>). Both \<open>subscribe\<close> calls return the same unsubscribe action;
  after either the callback is not registered and a \<open>save\<close> does not call it. The
  subscriber list without duplicates is what a \<open>Set\<close> is (\<open>distinct_Set_add\<close>,
  \<open>distinct_Set_delete\<close>).
\<close>

theorem subscribe_same_callback_twice:
  assumes "distinct (subscribers w)"
  shows "(let w1 = snd (subscribe cb w); w2 = snd (subscribe cb w1);
              u1 = fst (subscribe cb w); u2 = fst (subscribe cb w1)
          in w2 = w1 \<and>
             count_list (subscribers w2) cb = 1 \<and>
             count_list (map fst (notifications e w2)) cb =
               (if list_ex throws (takeWhile (\<lambda>c. c \<noteq> cb) (subscribers w2)) then 0 else 1) \<and>
             u2 = u1 \<and>
             cb \<notin> set (subscribers (snd (u1 w2))) \<and>
             cb \<notin> set (subscribers (snd (u2 w2))) \<and>
             count_list (map fst (notifications e (snd (u1 w2)))) cb = 0 \<and>
             count_list (map fst (notifications e (snd (u2 w2)))) cb = 0)"
proof -
  let ?s = "Set_add cb (subscribers w)"
  have d: "distinct ?s" and m: "cb \<in> set ?s"
    using assms by (auto simp: Set_add_def)
  have c1: "count_list ?s cb = 1"
    using d m by (rule count_list_distinct)
  have fstfst: "map (fst \<circ> (\<lambda>c. (c, ExecutionArg e))) xs = xs" for xs :: "callback list"
    by (simp add: comp_def)
  have c2: "count_list (notified ?s) cb =
              (if list_ex throws (takeWhile (\<lambda>c. c \<noteq> cb) ?s) then 0 else 1)"
    using count_notified_exact [OF d m] .
  have c3: "cb \<notin> set (notified (removeAll cb ?s))"
    using set_notified [of "removeAll cb ?s"] by auto
  show ?thesis
    using c1 c2 c3
    by (simp add: Let_def subscribe_def unsubscribe_def Set_add_idem notifications_eq fstfst
          Set_delete_def count_list_0_iff)
qed

text \<open>
  C10, witness: a store with one subscriber; a second callback is subscribed twice,
  notified once by a \<open>save\<close>, and gone after one unsubscribe.
\<close>

theorem subscribe_same_callback_twice_witness:
  "(let w = snd (subscribe (Callback 1 False) one_execution);
        cb = Callback 3 True;
        w1 = snd (subscribe cb w); w2 = snd (subscribe cb w1);
        u1 = fst (subscribe cb w); u2 = fst (subscribe cb w1)
    in subscribers w = [Callback 1 False] \<and>
       w2 = w1 \<and>
       subscribers w2 = [Callback 1 False, Callback 3 True] \<and>
       count_list (map fst (notifications 1 w2)) cb = 1 \<and>
       u2 = u1 \<and>
       subscribers (snd (u1 w2)) = [Callback 1 False] \<and>
       subscribers (snd (u2 w2)) = [Callback 1 False] \<and>
       count_list (map fst (notifications 1 (snd (u1 w2)))) cb = 0)"
  using subscribe_same_callback_twice
          [of "snd (subscribe (Callback 1 False) one_execution)" "Callback 3 True" 1]
  by (simp add: Let_def one_execution_facts subscribe_def unsubscribe_def Set_add_def
        Set_delete_def)

text \<open>
  C10, counterexample to the claim as stated (each save calls the callback exactly
  once): a subscriber that throws was registered first; the callback subscribed twice
  after it is registered once and a \<open>save\<close> does not call it.
\<close>

theorem subscribe_twice_earlier_thrower_counterexample:
  "(let w = snd (subscribe (Callback 2 True) one_execution);
        cb = Callback 3 False;
        w2 = snd (subscribe cb (snd (subscribe cb w)))
    in subscribers w2 = [Callback 2 True, Callback 3 False] \<and>
       fst (save 1 w2) = Threw (Callback 2 True) \<and>
       notifications 1 w2 = [(Callback 2 True, ExecutionArg 1)] \<and>
       count_list (map fst (notifications 1 w2)) cb = 0)"
  by (simp add: Let_def one_execution_facts subscribe_def Set_add_def notifications_eq
        save_def call_def)

section \<open>The store: findAll\<close>

text \<open>
  C7, as the code has it. With a non-empty \<open>tags\<close> option and no page, \<open>findAll\<close> returns
  exactly the stored executions whose tag set meets the supplied tags and that pass the
  status and time filters, each as often as it is stored (the result is a permutation
  of that selection).
\<close>

theorem findAll_tags_any:
  assumes "ts \<noteq> []"
  shows "mset (findAll lc \<lparr>limit = None, offset = None, status = st, tags = Some ts,
                         fromTime = ft, toTime = tt, orderBy = ob, orderDirection = od\<rparr> w)
       = mset (filter (\<lambda>e. tag_set (objects w e) \<inter> set ts \<noteq> {} \<and>
                          (case st of None \<Rightarrow> True | Some s \<Rightarrow> exec_status (objects w e) = s) \<and>
                          (case ft of None \<Rightarrow> True | Some t \<Rightarrow> t \<le> exec_startTime (objects w e)) \<and>
                          (case tt of None \<Rightarrow> True | Some t \<Rightarrow> exec_startTime (objects w e) \<le> t))
                 (map snd (executions w)))"
proof -
  let ?opts = "\<lparr>limit = None, offset = None, status = st, tags = Some ts,
                fromTime = ft, toTime = tt, orderBy = ob, orderDirection = od\<rparr>"
  have "findAll lc ?opts w = sorted_results lc ?opts w"
    by (simp add: findAll_def Let_def Array_slice_all)
  then have "mset (findAll lc ?opts w) = mset (filtered ?opts w)"
    by (simp add: sorted_results_def Let_def mset_Array_sort)
  also have "filtered ?opts w =
     filter (\<lambda>e. tag_set (objects w e) \<inter> set ts \<noteq> {} \<and>
                 (case st of None \<Rightarrow> True | Some s \<Rightarrow> exec_status (objects w e) = s) \<and>
                 (case ft of None \<Rightarrow> True | Some t \<Rightarrow> t \<le> exec_startTime (objects w e)) \<and>
                 (case tt of None \<Rightarrow> True | Some t \<Rightarrow> exec_startTime (objects w e) \<le> t))
       (map snd (executions w))"
    unfolding filtered_eq using assms by (intro filter_cong) auto
  finally show ?thesis .
qed

text \<open>
  C7, witness: of three executions tagged \<open>['c']\<close>, \<open>['a', 'c']\<close> and \<open>['b']\<close>, the tags
  \<open>['a', 'b']\<close> select the second and the third; the one tagged only \<open>['c']\<close> is left out.
\<close>

theorem findAll_tags_any_witness:
  "mset (findAll (\<lambda>a b. 0)
           \<lparr>limit = None, offset = None, status = None, tags = Some [''a'', ''b''],
            fromTime = None, toTime = None, orderBy = None, orderDirection = None\<rparr>
           demo_store) = {#3, 5#} \<and>
   exec_tags (objects demo_store 1) = Some [''c''] \<and>
   exec_tags (objects demo_store 3) = Some [''a'', ''c'']"
  using findAll_tags_any [of "[''a'', ''b'']" "\<lambda>a b. 0" None None None None None demo_store]
  by (simp add: demo_store_executions demo_store_objects tag_set_def)

text \<open>
  C7, counterexample to the claim as stated (for every tags option): the guard
  \<open>options.tags.length > 0\<close> skips the filter for the empty tag list, so \<open>tags: []\<close>
  returns the execution 1 although its tag set does not meet the empty set.
\<close>

theorem findAll_empty_tags_counterexample:
  "1 \<in> set (findAll (\<lambda>a b. 0)
           \<lparr>limit = None, offset = None, status = None, tags = Some [],
            fromTime = None, toTime = None, orderBy = None, orderDirection = None\<rparr>
           demo_store) \<and>
   tag_set (objects demo_store 1) \<inter> set [] = {}"
  by (simp add: findAll_def sorted_results_def filtered_def demo_store_executions
        demo_store_objects Array_sort_def compareFn_def Array_slice_def)

text \<open>
  C8. For a page size \<open>L > 0\<close> and fixed filter and sort options, the pages at the
  offsets \<open>0, L, 2L, ...\<close>, as many as cover the result, concatenate to the result of
  \<open>findAll\<close> without \<open>limit\<close> and \<open>offset\<close>: nothing is missing and nothing is repeated.
\<close>

theorem findAll_pagination:
  assumes "0 < L"
    and "length (findAll lc (opts\<lparr>limit := None, offset := None\<rparr>) w) \<le> n * nat L"
  shows "concat (map (\<lambda>k. findAll lc (opts\<lparr>limit := Some L, offset := Some (int k * L)\<rparr>) w) [0..<n])
         = findAll lc (opts\<lparr>limit := None, offset := None\<rparr>) w"
proof -
  let ?xs = "sorted_results lc opts w"
  have page: "findAll lc (opts\<lparr>limit := Some L, offset := Some (int k * L)\<rparr>) w
              = take (nat L) (drop (k * nat L) ?xs)" for k
  proof -
    have "findAll lc (opts\<lparr>limit := Some L, offset := Some (int k * L)\<rparr>) w
          = Array_slice (int k * L) (int k * L + L) ?xs"
      using assms(1) by (simp add: findAll_def Let_def sorted_results_page)
    also have "\<dots> = take (nat L) (drop (nat (int k * L)) ?xs)"
      using assms(1) by (intro Array_slice_nonneg) simp_all
    also have "nat (int k * L) = k * nat L"
      using assms(1) by (simp add: nat_mult_distrib)
    finally show ?thesis .
  qed
  have "concat (map (\<lambda>k. findAll lc (opts\<lparr>limit := Some L, offset := Some (int k * L)\<rparr>) w) [0..<n])
        = take (n * nat L) ?xs"
    by (simp add: page concat_pages)
  also have "\<dots> = ?xs"
    using assms(2) by (simp add: findAll_unpaged)
  finally show ?thesis
    by (simp add: findAll_unpaged)
qed

text \<open>C8, witness: three executions in pages of two.\<close>

theorem findAll_pagination_witness:
  "concat (map (\<lambda>k. findAll (\<lambda>a b. 0) (no_options\<lparr>limit := Some 2, offset := Some (int k * 2)\<rparr>)
                      demo_store) [0..<2]) = [5, 3, 1] \<and>
   findAll (\<lambda>a b. 0) (no_options\<lparr>limit := Some 2, offset := Some 0\<rparr>) demo_store = [5, 3] \<and>
   findAll (\<lambda>a b. 0) (no_options\<lparr>limit := Some 2, offset := Some 2\<rparr>) demo_store = [1] \<and>
   findAll (\<lambda>a b. 0) (no_options\<lparr>limit := None, offset := None\<rparr>) demo_store = [5, 3, 1]"
proof -
  have all: "findAll (\<lambda>a b. 0) (no_options\<lparr>limit := None, offset := None\<rparr>) demo_store = [5, 3, 1]"
    by (simp add: findAll_unpaged demo_store_sorted)
  have pages:
    "findAll (\<lambda>a b. 0) (no_options\<lparr>limit := Some 2, offset := Some 0\<rparr>) demo_store = [5, 3]"
    "findAll (\<lambda>a b. 0) (no_options\<lparr>limit := Some 2, offset := Some 2\<rparr>) demo_store = [1]"
    by (simp_all add: findAll_def sorted_results_page demo_store_sorted Array_slice_def
          no_options_fields)
  have "concat (map (\<lambda>k. findAll (\<lambda>a b. 0) (no_options\<lparr>limit := Some 2, offset := Some (int k * 2)\<rparr>)
                      demo_store) [0..<2]) =
        findAll (\<lambda>a b. 0) (no_options\<lparr>limit := None, offset := None\<rparr>) demo_store"
    by (rule findAll_pagination) (simp_all add: all)
  with all pages show ?thesis by simp
qed

text \<open>
  C9. \<open>limit: 0\<close> is read as no limit: the result is that of the same options without
  \<open>limit\<close>, and without an offset it is the whole filtered and sorted sequence.
\<close>

theorem findAll_limit_zero:
  "findAll lc (opts\<lparr>limit := Some 0\<rparr>) w = findAll lc (opts\<lparr>limit := None\<rparr>) w \<and>
   findAll lc (opts\<lparr>limit := Some 0, offset := None\<rparr>) w = sorted_results lc opts w"
  by (simp add: findAll_def Let_def sorted_results_page sorted_results_limit Array_slice_all)

text \<open>C9, witness: \<open>limit: 0\<close> on three stored executions returns all three.\<close>

theorem findAll_limit_zero_witness:
  "findAll (\<lambda>a b. 0) (no_options\<lparr>limit := Some 0\<rparr>) demo_store = [5, 3, 1] \<and>
   findAll (\<lambda>a b. 0) (no_options\<lparr>limit := Some 0, offset := None\<rparr>) demo_store = [5, 3, 1]"
  using findAll_limit_zero [of "\<lambda>a b. 0" no_options demo_store]
  by (simp add: findAll_def sorted_results_limit demo_store_sorted Array_slice_def
        no_options_fields)

end
